theory Spec2Isabelle
  imports Main "HOL-Library.Char_ord" "HOL-Library.List_Lexorder" "HOL-Library.AList"
begin

section \<open>Text\<close>

text \<open>
  Python strings are modelled as \<^typ>\<open>string\<close> and compared as Python compares them:
  lexicographically by character code, a proper prefix first. The development covers
  ASCII text: \<open>lower\<close>, \<open>upper\<close>, \<open>strip\<close> and the regular expression classes
  \<^verbatim>\<open>\d\<close> and \<^verbatim>\<open>\w\<close> are the ASCII ones, and a character above 127 is
  left alone by the case maps and is neither a digit, a word character nor white space.
\<close>

definition is_digit :: "char \<Rightarrow> bool" where
  "is_digit c \<longleftrightarrow> CHR ''0'' \<le> c \<and> c \<le> CHR ''9''"

definition is_upper :: "char \<Rightarrow> bool" where
  "is_upper c \<longleftrightarrow> CHR ''A'' \<le> c \<and> c \<le> CHR ''Z''"

definition is_lower :: "char \<Rightarrow> bool" where
  "is_lower c \<longleftrightarrow> CHR ''a'' \<le> c \<and> c \<le> CHR ''z''"

definition is_word :: "char \<Rightarrow> bool" where
  "is_word c \<longleftrightarrow> is_digit c \<or> is_upper c \<or> is_lower c \<or> c = CHR ''_''"

definition is_space :: "char \<Rightarrow> bool" where
  "is_space c \<longleftrightarrow> (let n = (of_char c :: nat) in (9 \<le> n \<and> n \<le> 13) \<or> (28 \<le> n \<and> n \<le> 32))"

definition lower_char :: "char \<Rightarrow> char" where
  "lower_char c = (if is_upper c then char_of ((of_char c :: nat) + 32) else c)"

definition upper_char :: "char \<Rightarrow> char" where
  "upper_char c = (if is_lower c then char_of ((of_char c :: nat) - 32) else c)"

definition lower :: "string \<Rightarrow> string" where
  "lower s = map lower_char s"

definition upper :: "string \<Rightarrow> string" where
  "upper s = map upper_char s"

definition strip :: "string \<Rightarrow> string" where
  "strip s = rev (dropWhile is_space (rev (dropWhile is_space s)))"

definition endswith :: "string \<Rightarrow> string \<Rightarrow> bool" where
  "endswith s suf \<longleftrightarrow> length suf \<le> length s \<and> drop (length s - length suf) s = suf"

text \<open>\<^verbatim>\<open>s.replace(c, "")\<close> for a one-character \<open>c\<close>.\<close>

definition remove_char :: "char \<Rightarrow> string \<Rightarrow> string" where
  "remove_char c s = filter (\<lambda>x. x \<noteq> c) s"

text \<open>\<^verbatim>\<open>s.split(sep)\<close> for a one-character separator: never the empty list.\<close>

fun split_sep :: "char \<Rightarrow> string \<Rightarrow> string list" where
  "split_sep sep [] = ['''']"
| "split_sep sep (c # cs) =
     (if c = sep then [] # split_sep sep cs
      else (case split_sep sep cs of [] \<Rightarrow> [c # []] | p # ps \<Rightarrow> (c # p) # ps))"

text \<open>\<^verbatim>\<open>sep.join(xs)\<close>.\<close>

fun join :: "string \<Rightarrow> string list \<Rightarrow> string" where
  "join sep [] = []"
| "join sep [x] = x"
| "join sep (x # y # ys) = x @ sep @ join sep (y # ys)"

text \<open>\<^verbatim>\<open>str(n)\<close> for an integer.\<close>

fun str_nat :: "nat \<Rightarrow> string" where
  "str_nat n =
     (if n < 10 then [char_of (48 + n)]
      else str_nat (n div 10) @ [char_of (48 + n mod 10)])"

declare str_nat.simps [simp del]

definition str_int :: "int \<Rightarrow> string" where
  "str_int i = (if i < 0 then CHR ''-'' # str_nat (nat (- i)) else str_nat (nat i))"

text \<open>\<^verbatim>\<open>sorted(set(xs))\<close>.\<close>

definition sorted_set :: "string list \<Rightarrow> string list" where
  "sorted_set xs = sort (remdups xs)"


section \<open>Paths (posixpath)\<close>

definition path_join :: "string \<Rightarrow> string \<Rightarrow> string" where
  "path_join a b =
     (if b \<noteq> [] \<and> hd b = CHR ''/'' then b
      else if a = [] \<or> last a = CHR ''/'' then a @ b
      else a @ ''/'' @ b)"

definition basename :: "string \<Rightarrow> string" where
  "basename p = rev (takeWhile (\<lambda>c. c \<noteq> CHR ''/'') (rev p))"

definition dirname :: "string \<Rightarrow> string" where
  "dirname p =
     (let head = take (length p - length (basename p)) p
      in if head \<noteq> [] \<and> \<not> list_all (\<lambda>c. c = CHR ''/'') head
         then rev (dropWhile (\<lambda>c. c = CHR ''/'') (rev head))
         else head)"


section \<open>The technique pattern\<close>

text \<open>
  \<^verbatim>\<open>TECHNIQUE_RE = re.compile(r"\bT\d{4}(?:\.\d{3})?\b", re.IGNORECASE)\<close>.
  \<open>boundary_after rest\<close> is the closing \<^verbatim>\<open>\b\<close> after a digit: the text ends or
  goes on with a character that is not a word character. \<open>match_here s\<close> is the match
  of the pattern without its opening \<^verbatim>\<open>\b\<close> at the start of \<open>s\<close>: the
  optional group is tried first, and given up when the closing boundary fails after it.
\<close>

definition boundary_after :: "string \<Rightarrow> bool" where
  "boundary_after rest \<longleftrightarrow> (case rest of [] \<Rightarrow> True | c # _ \<Rightarrow> \<not> is_word c)"

definition match_here :: "string \<Rightarrow> string option" where
  "match_here s =
     (if 5 \<le> length s \<and> (hd s = CHR ''T'' \<or> hd s = CHR ''t'')
         \<and> list_all is_digit (take 4 (tl s))
      then
        if 9 \<le> length s \<and> s ! 5 = CHR ''.'' \<and> list_all is_digit (take 3 (drop 6 s))
           \<and> boundary_after (drop 9 s)
        then Some (take 9 s)
        else if boundary_after (drop 5 s) then Some (take 5 s)
        else None
      else None)"

text \<open>
  \<^verbatim>\<open>TECHNIQUE_RE.findall(text)\<close>: the matches from left to right, each search
  starting where the last match ended. \<open>prev\<close> says whether the character before the
  current position is a word character, which decides the opening \<^verbatim>\<open>\b\<close>
  (the pattern starts with a word character).
\<close>

function findall_from :: "bool \<Rightarrow> string \<Rightarrow> string list" where
  "findall_from prev [] = []"
| "findall_from prev (c # cs) =
     (case (if prev then None else match_here (c # cs)) of
        Some m \<Rightarrow> m # findall_from True (drop (length m) (c # cs))
      | None \<Rightarrow> findall_from (is_word c) cs)"
  by pat_completeness auto
termination
proof (relation "measure (\<lambda>(prev, s). length s)")
  show "wf (measure (\<lambda>(prev, s). length s))" by simp
next
  fix prev :: bool and c :: char and cs :: string and m :: string
  assume "(if prev then None else match_here (c # cs)) = Some m"
  then have "5 \<le> length m"
    by (auto simp: match_here_def split: if_splits)
  then show "((True, drop (length m) (c # cs)), (prev, c # cs)) \<in> measure (\<lambda>(prev, s). length s)"
    by simp
next
  fix prev :: bool and c :: char and cs :: string
  show "((is_word c, cs), (prev, c # cs)) \<in> measure (\<lambda>(prev, s). length s)"
    by simp
qed

definition findall :: "string \<Rightarrow> string list" where
  "findall s = findall_from False s"


section \<open>Parsed YAML\<close>

text \<open>
  The values \<^verbatim>\<open>yaml.safe_load\<close> returns. \<open>YOther\<close> stands for every value that is
  neither \<^verbatim>\<open>None\<close>, a boolean, an integer, a string, a list nor a dict (a float,
  a date, a set): the scripts treat all of them alike. A dict is its list of items in
  insertion order, with distinct keys.
\<close>

datatype yaml =
    YNull
  | YBool bool
  | YInt int
  | YStr string
  | YList "yaml list"
  | YDict "(yaml \<times> yaml) list"
  | YOther string

type_synonym dict = "(yaml \<times> yaml) list"

text \<open>
  The parser is a parameter: \<open>safe_load raw\<close> is \<open>None\<close> where
  \<^verbatim>\<open>yaml.safe_load(raw)\<close> raises. So is reading a file: \<open>fs path\<close> is the decoded
  text of the file, \<open>None\<close> where \<^verbatim>\<open>open(path).read()\<close> raises.
\<close>

type_synonym loader = "string \<Rightarrow> yaml option"
type_synonym store = "string \<Rightarrow> string option"

datatype error =
    SystemExit string
  | ReadError string

definition SEVERITY_KEYS :: "string list" where
  "SEVERITY_KEYS = [''Severity'', ''severity'']"

definition TECHNIQUE_KEYS :: "string list" where
  "TECHNIQUE_KEYS = [''MitreTechniques'']"

text \<open>
  \<^verbatim>\<open>read_yaml\<close> (generate_layers.py 67-76, network_layer.py 85-92): the read is
  outside the \<^verbatim>\<open>try\<close>, the parse inside.
\<close>

definition parse_yaml :: "loader \<Rightarrow> string \<Rightarrow> dict option" where
  "parse_yaml safe_load raw =
     (case safe_load raw of
        None \<Rightarrow> None
      | Some obj \<Rightarrow> (case obj of YDict d \<Rightarrow> Some d | _ \<Rightarrow> None))"

definition read_yaml :: "loader \<Rightarrow> store \<Rightarrow> string \<Rightarrow> error + (dict option \<times> string)" where
  "read_yaml safe_load fs path =
     (case fs path of
        None \<Rightarrow> Inl (ReadError path)
      | Some raw \<Rightarrow> Inr (parse_yaml safe_load raw, raw))"

text \<open>\<^verbatim>\<open>get_first_str\<close> / \<^verbatim>\<open>get_first_string\<close>.\<close>

fun get_first_str :: "dict \<Rightarrow> string list \<Rightarrow> string option" where
  "get_first_str d [] = None"
| "get_first_str d (k # ks) =
     (case map_of d (YStr k) of
        Some (YStr v) \<Rightarrow> if strip v \<noteq> [] then Some (strip v) else get_first_str d ks
      | _ \<Rightarrow> get_first_str d ks)"

text \<open>\<^verbatim>\<open>if not d\<close> holds for \<^verbatim>\<open>None\<close> and for the empty dict.\<close>

definition get_severity :: "dict option \<Rightarrow> string" where
  "get_severity d =
     (case d of
        None \<Rightarrow> ''unknown''
      | Some m \<Rightarrow>
          if m = [] then ''unknown''
          else (case get_first_str m SEVERITY_KEYS of
                  None \<Rightarrow> ''unknown''
                | Some s \<Rightarrow> if s \<noteq> [] then lower s else ''unknown''))"

fun normalize_techniques :: "yaml \<Rightarrow> string list" where
  "normalize_techniques (YStr s) = sorted_set (map upper (findall s))"
| "normalize_techniques (YList items) =
     sorted_set (concat (map (\<lambda>item. case item of YStr s \<Rightarrow> map upper (findall s) | _ \<Rightarrow> []) items))"
| "normalize_techniques _ = sorted_set []"

text \<open>The loop over \<open>TECHNIQUE_KEYS\<close> of \<^verbatim>\<open>get_techniques\<close>.\<close>

fun structured_techniques :: "dict \<Rightarrow> string list \<Rightarrow> string list option" where
  "structured_techniques d [] = None"
| "structured_techniques d (k # ks) =
     (case map_of d (YStr k) of
        Some v \<Rightarrow> if normalize_techniques v \<noteq> [] then Some (normalize_techniques v)
                  else structured_techniques d ks
      | None \<Rightarrow> structured_techniques d ks)"

definition get_techniques :: "dict option \<Rightarrow> string \<Rightarrow> string list" where
  "get_techniques d raw_text =
     (case (case d of
              None \<Rightarrow> None
            | Some m \<Rightarrow> if m = [] then None else structured_techniques m TECHNIQUE_KEYS) of
        Some techs \<Rightarrow> techs
      | None \<Rightarrow> sorted_set (map upper (findall raw_text)))"


section \<open>Severity scores\<close>

text \<open>
  generate_layers.py 13-19 and 124-125: the table is keyed \<^verbatim>\<open>"Sev0"\<close> ...
  \<^verbatim>\<open>"Sev4"\<close>, and \<^verbatim>\<open>severity_score\<close> looks up \<^verbatim>\<open>sev.lower()\<close>.
\<close>

definition SEVERITY_TO_SCORE :: "(string \<times> int) list" where
  "SEVERITY_TO_SCORE =
     [(''Sev0'', 100), (''Sev1'', 90), (''Sev2'', 70), (''Sev3'', 40), (''Sev4'', 20)]"

definition severity_score :: "string \<Rightarrow> int" where
  "severity_score sev =
     (case map_of SEVERITY_TO_SCORE (lower sev) of Some n \<Rightarrow> n | None \<Rightarrow> 50)"

text \<open>
  network_layer.py 20-26 and 135-136: the table is keyed \<^verbatim>\<open>"sev0"\<close> ...
  \<^verbatim>\<open>"sev4"\<close>.
\<close>

definition SEVERITY_TO_SCORE_network :: "(string \<times> int) list" where
  "SEVERITY_TO_SCORE_network =
     [(''sev0'', 100), (''sev1'', 90), (''sev2'', 70), (''sev3'', 40), (''sev4'', 20)]"

definition severity_to_score :: "string \<Rightarrow> int" where
  "severity_to_score severity =
     (case map_of SEVERITY_TO_SCORE_network (lower severity) of Some n \<Rightarrow> n | None \<Rightarrow> 50)"


section \<open>Enumerating the rule files\<close>

text \<open>
  A directory is the names of its files and its subdirectories by name, in the order
  \<^verbatim>\<open>os.walk\<close> lists them.
\<close>

datatype dir = Dir (filenames: "string list") (subdirs: "(string \<times> dir) list")

definition EXCLUDE_DIRS :: "string list" where
  "EXCLUDE_DIRS =
     [''.git'', ''.github'', ''.codebuild'', ''.cursor'', ''.hooks'', ''.hooks_scripts'',
      ''__pycache__'', ''.venv'', ''venv'', ''node_modules'', ''dist'', ''build'',
      ''docs'', ''infra'', ''templates'', ''tests'',
      ''global_helpers'', ''procedures'', ''schemas'', ''signals'', ''watchdogs'']"

definition NETWORK_PLATFORMS :: "string list" where
  "NETWORK_PLATFORMS = [''Cloudflare'', ''Netcraft'', ''Datadog'']"

text \<open>
  \<^verbatim>\<open>os.walk(root)\<close>, top down, with the pruning
  \<^verbatim>\<open>dirnames[:] = [d for d in dirnames if d not in EXCLUDE_DIRS]\<close> both scripts do in
  every directory: the directories visited, each as the names that lead to it from the
  root (none for the root itself) and its file names.
\<close>

fun os_walk :: "string list \<Rightarrow> dir \<Rightarrow> (string list \<times> string list) list" where
  "os_walk rel (Dir fns subs) =
     (rel, fns) #
     concat (map (\<lambda>p. os_walk (rel @ [fst p]) (snd p))
                 (filter (\<lambda>p. fst p \<notin> set EXCLUDE_DIRS) subs))"

text \<open>
  The \<^verbatim>\<open>dirpath\<close> of a visited directory: \<^verbatim>\<open>os.walk\<close> joins each name to the
  path of its parent.
\<close>

definition dirpath :: "string \<Rightarrow> string list \<Rightarrow> string" where
  "dirpath root rel = foldl path_join root rel"

definition is_yaml_name :: "string \<Rightarrow> bool" where
  "is_yaml_name fn \<longleftrightarrow> endswith (lower fn) ''.yml'' \<or> endswith (lower fn) ''.yaml''"

text \<open>generate_layers.py 57-64.\<close>

definition iter_yaml_files :: "string \<Rightarrow> dir \<Rightarrow> string list" where
  "iter_yaml_files root tree =
     sort (concat (map (\<lambda>(rel, fns). map (path_join (dirpath root rel)) (filter is_yaml_name fns))
                       (os_walk [] tree)))"

text \<open>
  \<^verbatim>\<open>os.path.relpath(dirpath, root)\<close> for a directory the walk reached from
  \<open>root\<close> through the names \<open>rel\<close>.
\<close>

definition relpath :: "string list \<Rightarrow> string" where
  "relpath rel = (if rel = [] then ''.'' else join ''/'' rel)"

definition platform_of :: "string \<Rightarrow> string" where
  "platform_of part = remove_char (CHR '' '') (remove_char (CHR ''_'') (lower part))"

definition allowed :: "string set" where
  "allowed = set (map lower NETWORK_PLATFORMS)"

text \<open>
  network_layer.py 53-82. \<open>root\<close> is the absolute path
  \<^verbatim>\<open>os.path.abspath(root)\<close> the function starts with. The \<^verbatim>\<open>continue\<close>
  leaves out the files of a directory; the walk still goes on below it.
\<close>

definition visit_network :: "string \<Rightarrow> string list \<times> string list \<Rightarrow> string list" where
  "visit_network root = (\<lambda>(rel, fns).
     let rel_path = relpath rel;
         parts = split_sep (CHR ''/'') rel_path
     in if parts \<noteq> [] \<and> platform_of (hd parts) \<notin> allowed then []
        else map (path_join (dirpath root rel)) (filter is_yaml_name fns))"

definition iter_yaml_files_network :: "string \<Rightarrow> dir \<Rightarrow> string list" where
  "iter_yaml_files_network root tree =
     sort (concat (map (visit_network root) (os_walk [] tree)))"


section \<open>Aggregation\<close>

text \<open>
  The four \<^verbatim>\<open>defaultdict\<close>s and the two counters of \<^verbatim>\<open>main\<close>. A dict is its
  list of items in insertion order. Reading a missing key of a \<^verbatim>\<open>defaultdict\<close>
  gives the default (and stores it: the stored default reads back as the default, and
  only the keys of \<open>counts\<close>, which are always written, are ever listed).
\<close>

record agg =
  max_score :: "(string \<times> int) list"
  max_sev :: "(string \<times> string) list"
  counts :: "(string \<times> int) list"
  examples :: "(string \<times> string list) list"
  parsed_files :: int
  skipped_no_technique :: int

definition dd_get :: "'v \<Rightarrow> (string \<times> 'v) list \<Rightarrow> string \<Rightarrow> 'v" where
  "dd_get dflt d k = (case map_of d k of None \<Rightarrow> dflt | Some v \<Rightarrow> v)"

definition agg_init :: agg where
  "agg_init = \<lparr>max_score = [], max_sev = [], counts = [], examples = [],
               parsed_files = 0, skipped_no_technique = 0\<rparr>"

text \<open>The body of \<^verbatim>\<open>for tid in techs\<close> (generate_layers.py 181-188, network_layer.py 200-208).\<close>

definition update_tid :: "int \<Rightarrow> string \<Rightarrow> string \<Rightarrow> agg \<Rightarrow> string \<Rightarrow> agg" where
  "update_tid score sev location st tid =
     (let st1 = st\<lparr>counts := AList.update tid (dd_get 0 (counts st) tid + 1) (counts st)\<rparr>;
          st2 = (if length (dd_get [] (examples st1) tid) < 5
                 then st1\<lparr>examples :=
                        AList.update tid (dd_get [] (examples st1) tid @ [location]) (examples st1)\<rparr>
                 else st1)
      in if score > dd_get 0 (max_score st2) tid
         then st2\<lparr>max_score := AList.update tid score (max_score st2),
                  max_sev := AList.update tid sev (max_sev st2)\<rparr>
         else st2)"

text \<open>
  \<^verbatim>\<open>f"{det_name}/{file_name}"\<close>: the name of the file's directory and the file's name.
\<close>

definition location_of :: "string \<Rightarrow> string" where
  "location_of ypath = basename (dirname ypath) @ ''/'' @ basename ypath"

text \<open>
  The loop \<^verbatim>\<open>for ypath in yaml_files\<close> (generate_layers.py 167-188, network_layer.py
  186-208); \<open>score_of\<close> is \<open>severity_score\<close> in the first script and
  \<open>severity_to_score\<close> in the second.
\<close>

fun aggregate :: "(string \<Rightarrow> int) \<Rightarrow> loader \<Rightarrow> store \<Rightarrow> string list \<Rightarrow> agg \<Rightarrow> error + agg" where
  "aggregate score_of safe_load fs [] st = Inr st"
| "aggregate score_of safe_load fs (ypath # rest) st =
     (case read_yaml safe_load fs ypath of
        Inl e \<Rightarrow> Inl e
      | Inr (d, raw) \<Rightarrow>
          (let sev = get_severity d;
               techs = get_techniques d raw
           in if techs = []
              then aggregate score_of safe_load fs rest
                     (st\<lparr>skipped_no_technique := skipped_no_technique st + 1\<rparr>)
              else aggregate score_of safe_load fs rest
                     (foldl (update_tid (score_of sev) sev (location_of ypath))
                            (st\<lparr>parsed_files := parsed_files st + 1\<rparr>) techs)))"


section \<open>The layer\<close>

record info =
  info_score :: int
  info_max_severity :: string
  info_count :: int
  info_comment :: string

definition comment_of :: "int \<Rightarrow> string \<Rightarrow> string list \<Rightarrow> string" where
  "comment_of n sev exs =
     ''detections='' @ str_int n @ ''; max_sev='' @ sev @ ''; examples='' @ join '', '' exs"

text \<open>The loop \<^verbatim>\<open>for tid in counts.keys()\<close>.\<close>

definition info_of :: "agg \<Rightarrow> string \<Rightarrow> info" where
  "info_of st tid =
     \<lparr>info_score = dd_get 0 (max_score st) tid,
      info_max_severity = dd_get ''unknown'' (max_sev st) tid,
      info_count = dd_get 0 (counts st) tid,
      info_comment = comment_of (dd_get 0 (counts st) tid) (dd_get ''unknown'' (max_sev st) tid)
                       (dd_get [] (examples st) tid)\<rparr>"

definition technique_info :: "agg \<Rightarrow> (string \<times> info) list" where
  "technique_info st =
     foldl (\<lambda>ti tid. AList.update tid (info_of st tid) ti) [] (map fst (counts st))"

record technique =
  techniqueID :: string
  score :: int
  comment :: string
  metadata :: "(string \<times> string) list"

record layer =
  name :: string
  domain :: string
  description :: string
  gradient :: "int \<times> int"
  layout :: string
  hideDisabled :: bool
  techniques :: "technique list"

text \<open>
  \<^verbatim>\<open>build_layer\<close>; the two scripts differ in the description. The keys of a dict
  are distinct, so going through the sorted keys and reading each key's value is going
  through the items in the order of their keys.
\<close>

definition entry_of :: "string \<times> info \<Rightarrow> technique" where
  "entry_of = (\<lambda>(tid, i).
     \<lparr>techniqueID = tid, score = info_score i, comment = info_comment i,
      metadata = [(''detections_count'', str_int (info_count i)),
                  (''max_severity'', info_max_severity i)]\<rparr>)"

definition build_layer :: "string \<Rightarrow> string \<Rightarrow> (string \<times> info) list \<Rightarrow> layer" where
  "build_layer descr layer_name ti =
     \<lparr>name = layer_name, domain = ''enterprise-attack'', description = descr,
      gradient = (0, 100), layout = ''side'', hideDisabled = False,
      techniques = map entry_of (sort_key fst ti)\<rparr>"


section \<open>The two scripts\<close>

text \<open>The four lines a run prints.\<close>

record report =
  parsed :: int
  skipped :: int
  wrote :: string
  technique_count :: nat

text \<open>
  \<^verbatim>\<open>main\<close> from the list of candidate files on. The files written are a map from
  paths to layers; a run that fails leaves it as it was. \<open>no_input\<close> is the message of
  the \<^verbatim>\<open>SystemExit\<close>, \<open>descr\<close> the description of the layer.
\<close>

definition run ::
  "(string \<Rightarrow> int) \<Rightarrow> string \<Rightarrow> string \<Rightarrow> loader \<Rightarrow> store \<Rightarrow> string list \<Rightarrow> string \<Rightarrow> string
     \<Rightarrow> (string \<rightharpoonup> layer) \<Rightarrow> (error + report) \<times> (string \<rightharpoonup> layer)" where
  "run score_of no_input descr safe_load fs yaml_files out_path layer_name outs =
     (if yaml_files = [] then (Inl (SystemExit no_input), outs)
      else case aggregate score_of safe_load fs yaml_files agg_init of
             Inl e \<Rightarrow> (Inl e, outs)
           | Inr st \<Rightarrow>
               (let l = build_layer descr layer_name (technique_info st)
                in (Inr \<lparr>parsed = parsed_files st, skipped = skipped_no_technique st,
                         wrote = out_path, technique_count = length (techniques l)\<rparr>,
                    outs(out_path \<mapsto> l))))"

text \<open>generate_layers.py 153-209.\<close>

definition main ::
  "loader \<Rightarrow> store \<Rightarrow> dir \<Rightarrow> string \<Rightarrow> string \<Rightarrow> string
     \<Rightarrow> (string \<rightharpoonup> layer) \<Rightarrow> (error + report) \<times> (string \<rightharpoonup> layer)" where
  "main safe_load fs tree repo_root out_path layer_name outs =
     run severity_score (''No .yaml/.yml files found under: '' @ repo_root)
       ''Auto-generated from detection YAML files in repo (technique + severity).''
       safe_load fs (iter_yaml_files repo_root tree) out_path layer_name outs"

text \<open>network_layer.py 173-233; \<open>repo_root\<close> is the absolute path of the root.\<close>

definition main_network ::
  "loader \<Rightarrow> store \<Rightarrow> dir \<Rightarrow> string \<Rightarrow> string \<Rightarrow> string
     \<Rightarrow> (string \<rightharpoonup> layer) \<Rightarrow> (error + report) \<times> (string \<rightharpoonup> layer)" where
  "main_network safe_load fs tree repo_root out_path layer_name outs =
     run severity_to_score ''No Network detection YAML files found.''
       ''Auto-generated network-only ATT&CK coverage from Rippling detections.''
       safe_load fs (iter_yaml_files_network repo_root tree) out_path layer_name outs"


section \<open>Notions the properties are stated with\<close>


text \<open>
  The facts of the rule file at a path: what \<open>get_severity\<close> and \<open>get_techniques\<close>
  return on what \<open>read_yaml\<close> returns for it.
\<close>

definition sev_at :: "loader \<Rightarrow> store \<Rightarrow> string \<Rightarrow> string" where
  "sev_at safe_load fs p =
     (case fs p of None \<Rightarrow> ''unknown'' | Some raw \<Rightarrow> get_severity (parse_yaml safe_load raw))"

definition techs_at :: "loader \<Rightarrow> store \<Rightarrow> string \<Rightarrow> string list" where
  "techs_at safe_load fs p =
     (case fs p of None \<Rightarrow> [] | Some raw \<Rightarrow> get_techniques (parse_yaml safe_load raw) raw)"

text \<open>The files that contribute to a technique, in the order they are processed.\<close>

definition contributing :: "loader \<Rightarrow> store \<Rightarrow> string list \<Rightarrow> string \<Rightarrow> string list" where
  "contributing safe_load fs files tid = filter (\<lambda>p. tid \<in> set (techs_at safe_load fs p)) files"

text \<open>
  What one contributing file does to the best score and severity of a technique, and to
  its examples.
\<close>

definition better :: "int \<times> string \<Rightarrow> int \<times> string \<Rightarrow> int \<times> string" where
  "better cur new = (if fst new > fst cur then new else cur)"

definition add_example :: "string list \<Rightarrow> string \<Rightarrow> string list" where
  "add_example exs l = (if length exs < 5 then exs @ [l] else exs)"

text \<open>What the aggregation state holds for one technique.\<close>

definition cnt :: "agg \<Rightarrow> string \<Rightarrow> int" where
  "cnt st tid = dd_get 0 (counts st) tid"

definition exs_of :: "agg \<Rightarrow> string \<Rightarrow> string list" where
  "exs_of st tid = dd_get [] (examples st) tid"

definition best :: "agg \<Rightarrow> string \<Rightarrow> int \<times> string" where
  "best st tid = (dd_get 0 (max_score st) tid, dd_get ''unknown'' (max_sev st) tid)"

text \<open>One round of the loop over the files, for a file that can be read.\<close>

definition file_step :: "(string \<Rightarrow> int) \<Rightarrow> loader \<Rightarrow> store \<Rightarrow> agg \<Rightarrow> string \<Rightarrow> agg" where
  "file_step sc yl fs st p =
     (if techs_at yl fs p = [] then st\<lparr>skipped_no_technique := skipped_no_technique st + 1\<rparr>
      else foldl (update_tid (sc (sev_at yl fs p)) (sev_at yl fs p) (location_of p))
             (st\<lparr>parsed_files := parsed_files st + 1\<rparr>) (techs_at yl fs p))"

text \<open>
  The layer in terms of the files: the techniques of all files, and the entry of a
  technique computed from its contributing files.
\<close>

definition all_techniques :: "loader \<Rightarrow> store \<Rightarrow> string list \<Rightarrow> string list" where
  "all_techniques safe_load fs files = sorted_set (concat (map (techs_at safe_load fs) files))"

definition best_of :: "(string \<Rightarrow> int) \<Rightarrow> loader \<Rightarrow> store \<Rightarrow> string list \<Rightarrow> string \<Rightarrow> int \<times> string" where
  "best_of score_of safe_load fs files tid =
     foldl better (0, ''unknown'')
       (map (\<lambda>p. (score_of (sev_at safe_load fs p), sev_at safe_load fs p))
            (contributing safe_load fs files tid))"

definition summary :: "(string \<Rightarrow> int) \<Rightarrow> loader \<Rightarrow> store \<Rightarrow> string list \<Rightarrow> string \<Rightarrow> technique" where
  "summary score_of safe_load fs files tid =
     (let cs = contributing safe_load fs files tid;
          b = best_of score_of safe_load fs files tid;
          n = int (length cs)
      in \<lparr>techniqueID = tid, score = fst b,
          comment = comment_of n (snd b) (take 5 (map location_of cs)),
          metadata = [(''detections_count'', str_int n), (''max_severity'', snd b)]\<rparr>)"


section \<open>Sample repositories\<close>

text \<open>
  A repository with a rule of an allowed platform, a rule of another platform whose
  file does not parse, a file in the root that parses to a string, and an excluded
  directory.
\<close>

definition sample_tree :: dir where
  "sample_tree =
     Dir [''top.yml'']
       [(''Cloudflare'', Dir [] [(''ruleA'', Dir [''a.yml'', ''readme.txt''] [])]),
        (''Okta'', Dir [] [(''ruleB'', Dir [''b.YAML''] [])]),
        (''tests'', Dir [''t.yml''] [])]"

definition sample_store :: store where
  "sample_store p =
     (if p = ''/r/Cloudflare/ruleA/a.yml''
      then Some ''{Severity: Sev0, MitreTechniques: [T1059, T1110.001]}''
      else if p = ''/r/Okta/ruleB/b.YAML'' then Some ''rule: [T1003, t1003.002, T1003''
      else if p = ''/r/top.yml'' then Some ''nothing''
      else None)"

definition sample_loader :: loader where
  "sample_loader raw =
     (if raw = ''{Severity: Sev0, MitreTechniques: [T1059, T1110.001]}''
      then Some (YDict [(YStr ''Severity'', YStr ''Sev0''),
                        (YStr ''MitreTechniques'', YList [YStr ''T1059'', YStr ''T1110.001''])])
      else if raw = ''nothing'' then Some (YStr ''nothing'')
      else None)"

text \<open>
  A repository of one platform with seven rule files; every file is the text
  \<^verbatim>\<open>T1059\<close>, and the first two are mappings with the severities \<^verbatim>\<open>High\<close> and
  \<^verbatim>\<open>Critical\<close>.
\<close>

definition many_tree :: dir where
  "many_tree =
     Dir []
       [(''Data_dog'',
         Dir [] [(''rule'', Dir [''g.yml'', ''a.yml'', ''b.yml'', ''c.yml'', ''d.yml'', ''e.yml'',
                                 ''f.yml''] [])])]"

definition many_store :: store where
  "many_store p =
     (if p = ''/r/Data_dog/rule/a.yml'' then Some ''{severity: High, x: T1059}''
      else if p = ''/r/Data_dog/rule/b.yml'' then Some ''{severity: Critical, x: T1059}''
      else Some ''T1059'')"

definition many_loader :: loader where
  "many_loader raw =
     (if raw = ''{severity: High, x: T1059}''
      then Some (YDict [(YStr ''severity'', YStr ''High''), (YStr ''x'', YStr ''T1059'')])
      else if raw = ''{severity: Critical, x: T1059}''
      then Some (YDict [(YStr ''severity'', YStr ''Critical''), (YStr ''x'', YStr ''T1059'')])
      else if raw = ''T1059'' then Some (YStr ''T1059'')
      else None)"

text \<open>Repositories without a candidate file.\<close>

definition docs_only_tree :: dir where
  "docs_only_tree = Dir [''README.md''] [(''docs'', Dir [''x.yml''] [])]"

definition okta_only_tree :: dir where
  "okta_only_tree = Dir [''top.yaml''] [(''Okta'', Dir [] [(''ruleB'', Dir [''b.yml''] [])])]"


text \<open>
  The candidate files of the repository with seven rule files, and the state of the
  aggregation after them.
\<close>

definition many_files :: "string list" where
  "many_files = [''/r/Data_dog/rule/a.yml'', ''/r/Data_dog/rule/b.yml'', ''/r/Data_dog/rule/c.yml'',
                 ''/r/Data_dog/rule/d.yml'', ''/r/Data_dog/rule/e.yml'', ''/r/Data_dog/rule/f.yml'',
                 ''/r/Data_dog/rule/g.yml'']"

definition many_final :: agg where
  "many_final =
     \<lparr>max_score = [(''T1059'', 50)], max_sev = [(''T1059'', ''high'')], counts = [(''T1059'', 7)],
      examples = [(''T1059'', [''rule/a.yml'', ''rule/b.yml'', ''rule/c.yml'', ''rule/d.yml'',
                               ''rule/e.yml''])],
      parsed_files = 7, skipped_no_technique = 0\<rparr>"



section \<open>Text and technique IDs\<close>

lemma upper_char_digit: "is_digit c \<Longrightarrow> upper_char c = c"
  by (auto simp: is_digit_def upper_char_def is_lower_def less_eq_char_def)

lemma is_digit_upper_char: "is_digit c \<Longrightarrow> is_digit (upper_char c)"
  by (simp add: upper_char_digit)





lemma set_sorted_set: "set (sorted_set xs) = set xs"
  by (simp add: sorted_set_def)

lemma strict_sorted_sorted_set: "sorted_wrt (<) (sorted_set xs)"
  by (simp add: sorted_set_def strict_sorted_iff)

lemma sorted_set_Nil_iff: "sorted_set xs = [] \<longleftrightarrow> xs = []"
  by (metis set_sorted_set set_empty)


lemma normalize_techniques_sorted: "sorted_wrt (<) (normalize_techniques v)"
  by (cases v) (simp_all add: strict_sorted_sorted_set)

lemma get_techniques_cases:
  "get_techniques d raw =
     (case d of
        None \<Rightarrow> sorted_set (map upper (findall raw))
      | Some m \<Rightarrow>
          (case map_of m (YStr ''MitreTechniques'') of
             None \<Rightarrow> sorted_set (map upper (findall raw))
           | Some v \<Rightarrow> if normalize_techniques v \<noteq> [] then normalize_techniques v
                       else sorted_set (map upper (findall raw))))"
  by (auto simp: get_techniques_def TECHNIQUE_KEYS_def split: option.splits)


lemma get_techniques_sorted: "sorted_wrt (<) (get_techniques d raw)"
  by (auto simp: get_techniques_cases strict_sorted_sorted_set normalize_techniques_sorted
           split: option.splits)

lemma get_techniques_distinct: "distinct (get_techniques d raw)"
  using get_techniques_sorted strict_sorted_iff by blast

lemma dd_get_update: "dd_get d (AList.update k v al) k' = (if k' = k then v else dd_get d al k')"
  by (simp add: dd_get_def update_conv')

lemma cnt_update_tid:
  "cnt (update_tid sc sev loc st t) tid = (if tid = t then cnt st tid + 1 else cnt st tid)"
  by (simp add: cnt_def update_tid_def Let_def dd_get_update)

lemma exs_update_tid:
  "exs_of (update_tid sc sev loc st t) tid =
     (if tid = t then add_example (exs_of st tid) loc else exs_of st tid)"
  by (simp add: exs_of_def update_tid_def Let_def dd_get_update add_example_def)

lemma best_update_tid:
  "best (update_tid sc sev loc st t) tid =
     (if tid = t then better (best st tid) (sc, sev) else best st tid)"
  by (simp add: best_def update_tid_def Let_def dd_get_update better_def)

lemma keys_update_tid:
  "fst ` set (counts (update_tid sc sev loc st t)) = insert t (fst ` set (counts st))"
  by (simp add: update_tid_def Let_def dom_update)

lemma distinct_update_tid:
  "distinct (map fst (counts st)) \<Longrightarrow> distinct (map fst (counts (update_tid sc sev loc st t)))"
  by (simp add: update_tid_def Let_def distinct_update)

lemma counters_update_tid:
  "parsed_files (update_tid sc sev loc st t) = parsed_files st"
  "skipped_no_technique (update_tid sc sev loc st t) = skipped_no_technique st"
  by (simp_all add: update_tid_def Let_def)

lemma cnt_foldl:
  "distinct techs \<Longrightarrow>
   cnt (foldl (update_tid sc sev loc) st techs) tid =
     (if tid \<in> set techs then cnt st tid + 1 else cnt st tid)"
  by (induction techs arbitrary: st) (auto simp: cnt_update_tid)

lemma exs_foldl:
  "distinct techs \<Longrightarrow>
   exs_of (foldl (update_tid sc sev loc) st techs) tid =
     (if tid \<in> set techs then add_example (exs_of st tid) loc else exs_of st tid)"
  by (induction techs arbitrary: st) (auto simp: exs_update_tid)

lemma best_foldl:
  "distinct techs \<Longrightarrow>
   best (foldl (update_tid sc sev loc) st techs) tid =
     (if tid \<in> set techs then better (best st tid) (sc, sev) else best st tid)"
  by (induction techs arbitrary: st) (auto simp: best_update_tid)

lemma keys_foldl:
  "fst ` set (counts (foldl (update_tid sc sev loc) st techs)) = set techs \<union> fst ` set (counts st)"
  by (induction techs arbitrary: st) (auto simp: keys_update_tid)

lemma distinct_foldl:
  "distinct (map fst (counts st)) \<Longrightarrow>
   distinct (map fst (counts (foldl (update_tid sc sev loc) st techs)))"
  by (induction techs arbitrary: st) (auto simp: distinct_update_tid)

lemma aggregate_Cons_Some:
  "fs p = Some raw \<Longrightarrow>
   aggregate sc yl fs (p # rest) st = aggregate sc yl fs rest (file_step sc yl fs st p)"
  by (simp add: read_yaml_def file_step_def techs_at_def sev_at_def Let_def)

lemma aggregate_Cons_None:
  "fs p = None \<Longrightarrow> aggregate sc yl fs (p # rest) st = Inl (ReadError p)"
  by (simp add: read_yaml_def)

lemma aggregate_Inr_iff:
  "aggregate sc yl fs files st = Inr st' \<longleftrightarrow>
     (\<forall>p \<in> set files. fs p \<noteq> None) \<and> st' = foldl (file_step sc yl fs) st files"
proof (induction files arbitrary: st)
  case Nil
  then show ?case by auto
next
  case (Cons p rest)
  show ?case
  proof (cases "fs p")
    case None
    then show ?thesis by (simp add: aggregate_Cons_None del: aggregate.simps)
  next
    case (Some raw)
    then show ?thesis using Cons.IH by (simp add: aggregate_Cons_Some del: aggregate.simps)
  qed
qed

lemma techs_at_distinct: "distinct (techs_at yl fs p)"
  by (simp add: techs_at_def get_techniques_distinct split: option.splits)

lemma cnt_file_step:
  "cnt (file_step sc yl fs st p) tid =
     (if tid \<in> set (techs_at yl fs p) then cnt st tid + 1 else cnt st tid)"
  by (auto simp: file_step_def cnt_foldl techs_at_distinct) (simp_all add: cnt_def)

lemma exs_file_step:
  "exs_of (file_step sc yl fs st p) tid =
     (if tid \<in> set (techs_at yl fs p) then add_example (exs_of st tid) (location_of p)
      else exs_of st tid)"
  by (auto simp: file_step_def exs_foldl techs_at_distinct) (simp_all add: exs_of_def)

lemma best_file_step:
  "best (file_step sc yl fs st p) tid =
     (if tid \<in> set (techs_at yl fs p)
      then better (best st tid) (sc (sev_at yl fs p), sev_at yl fs p) else best st tid)"
  by (auto simp: file_step_def best_foldl techs_at_distinct) (simp_all add: best_def)

lemma keys_file_step:
  "fst ` set (counts (file_step sc yl fs st p)) = set (techs_at yl fs p) \<union> fst ` set (counts st)"
  by (auto simp: file_step_def keys_foldl)

lemma distinct_file_step:
  "distinct (map fst (counts st)) \<Longrightarrow> distinct (map fst (counts (file_step sc yl fs st p)))"
  by (auto simp: file_step_def intro: distinct_foldl)

lemma cnt_files:
  "cnt (foldl (file_step sc yl fs) st files) tid =
     cnt st tid + int (length (contributing yl fs files tid))"
  by (induction files arbitrary: st) (auto simp: cnt_file_step contributing_def)

lemma exs_files:
  "exs_of (foldl (file_step sc yl fs) st files) tid =
     foldl add_example (exs_of st tid) (map location_of (contributing yl fs files tid))"
  by (induction files arbitrary: st) (auto simp: exs_file_step contributing_def)

lemma best_files:
  "best (foldl (file_step sc yl fs) st files) tid =
     foldl better (best st tid)
       (map (\<lambda>p. (sc (sev_at yl fs p), sev_at yl fs p)) (contributing yl fs files tid))"
  by (induction files arbitrary: st) (auto simp: best_file_step contributing_def)

lemma keys_files:
  "fst ` set (counts (foldl (file_step sc yl fs) st files)) =
     (\<Union>p \<in> set files. set (techs_at yl fs p)) \<union> fst ` set (counts st)"
  by (induction files arbitrary: st) (auto simp: keys_file_step)

lemma distinct_files:
  "distinct (map fst (counts st)) \<Longrightarrow>
   distinct (map fst (counts (foldl (file_step sc yl fs) st files)))"
  by (induction files arbitrary: st) (auto simp: distinct_file_step)

lemma foldl_add_example:
  "length e0 \<le> 5 \<Longrightarrow> foldl add_example e0 ls = e0 @ take (5 - length e0) ls"
proof (induction ls arbitrary: e0)
  case Nil
  then show ?case by simp
next
  case (Cons l ls)
  show ?case
  proof (cases "length e0 < 5")
    case True
    then have len: "length (e0 @ [l]) \<le> 5" by simp
    from True have k: "5 - length e0 = Suc (5 - length (e0 @ [l]))" by simp
    have "foldl add_example e0 (l # ls) = foldl add_example (e0 @ [l]) ls"
      using True by (simp add: add_example_def)
    also have "\<dots> = (e0 @ [l]) @ take (5 - length (e0 @ [l])) ls"
      by (rule Cons.IH[OF len])
    also have "\<dots> = e0 @ take (5 - length e0) (l # ls)"
      by (simp only: k take_Suc_Cons append_assoc append_Cons append_Nil)
    finally show ?thesis .
  next
    case False
    with Cons.prems have "length e0 = 5" by simp
    with Cons.IH[of e0] show ?thesis by (simp add: add_example_def)
  qed
qed

lemma find_append:
  "find P (xs @ ys) = (case find P xs of None \<Rightarrow> find P ys | Some x \<Rightarrow> Some x)"
  by (induction xs) auto

lemma foldl_better:
  assumes "xs \<noteq> []" and "\<forall>x \<in> set xs. 0 < fst x"
  shows "fst (foldl better (0, u) xs) = Max (fst ` set xs) \<and>
         find (\<lambda>x. fst x = Max (fst ` set xs)) xs = Some (foldl better (0, u) xs)"
  using assms
proof (induction xs rule: rev_induct)
  case Nil
  then show ?case by simp
next
  case (snoc x xs)
  show ?case
  proof (cases "xs = []")
    case True
    with snoc.prems show ?thesis by (simp add: better_def)
  next
    case False
    let ?r = "foldl better (0, u) xs"
    let ?m = "Max (fst ` set xs)"
    from snoc False have ih: "fst ?r = ?m" "find (\<lambda>x. fst x = ?m) xs = Some ?r"
      by auto
    have fin: "finite (fst ` set xs)" "fst ` set xs \<noteq> {}" using False by auto
    have mx: "Max (fst ` set (xs @ [x])) = max (fst x) ?m"
      using fin by simp
    have step: "foldl better (0, u) (xs @ [x]) = better ?r x" by simp
    show ?thesis
    proof (cases "fst x > ?m")
      case True
      then have "\<forall>y \<in> set xs. fst y \<noteq> fst x"
        using fin by (metis Max_ge image_eqI not_le)
      then have none: "find (\<lambda>y. fst y = fst x) xs = None"
        by (force simp: find_None_iff)
      from True ih have b: "better ?r x = x" by (simp add: better_def)
      from True mx have m: "Max (fst ` set (xs @ [x])) = fst x" by (simp add: max_def)
      show ?thesis unfolding step b m using none by (simp add: find_append)
    next
      case False
      with ih have b: "better ?r x = ?r" by (simp add: better_def)
      from False mx have m: "Max (fst ` set (xs @ [x])) = ?m" by (simp add: max_def)
      show ?thesis unfolding step b m using ih by (simp add: find_append)
    qed
  qed
qed

lemma root_not_allowed: "platform_of (hd (split_sep (CHR ''/'') (relpath []))) \<notin> allowed"
  by code_simp

lemma split_sep_nonempty: "split_sep sep s \<noteq> []"
  by (induction s) (auto split: list.splits)

lemma visit_network_root: "visit_network root ([], fns) = []"
  using root_not_allowed by (simp add: visit_network_def Let_def split_sep_nonempty)









lemma iter_yaml_files_network_root_files:
  "iter_yaml_files_network root (Dir fns subs) = iter_yaml_files_network root (Dir [] subs)"
  by (simp add: iter_yaml_files_network_def visit_network_root)



lemma update_fresh: "k \<notin> fst ` set al \<Longrightarrow> AList.update k v al = al @ [(k, v)]"
  by (induction al) auto

lemma foldl_update_fresh:
  "distinct ks \<Longrightarrow> set ks \<inter> fst ` set al = {} \<Longrightarrow>
   foldl (\<lambda>ti k. AList.update k (f k) ti) al ks = al @ map (\<lambda>k. (k, f k)) ks"
proof (induction ks arbitrary: al)
  case Nil
  then show ?case by simp
next
  case (Cons k ks)
  from Cons.prems have fresh: "k \<notin> fst ` set al" by auto
  from Cons.prems have "set ks \<inter> fst ` set (al @ [(k, f k)]) = {}" by auto
  with Cons.IH[of "al @ [(k, f k)]"] Cons.prems show ?case
    by (simp add: update_fresh[OF fresh])
qed

lemma distinct_foldl_update:
  "distinct (map fst al) \<Longrightarrow>
   distinct (map fst (foldl (\<lambda>ti k. AList.update k (f k) ti) al ks))"
  by (induction ks arbitrary: al) (simp_all add: distinct_update)

lemma technique_info_distinct: "distinct (map fst (technique_info st))"
  by (simp add: technique_info_def distinct_foldl_update)

lemma technique_info_eq:
  "distinct (map fst (counts st)) \<Longrightarrow>
   technique_info st = map (\<lambda>tid. (tid, info_of st tid)) (map fst (counts st))"
  using foldl_update_fresh[of "map fst (counts st)" "[]" "info_of st"]
  by (simp add: technique_info_def)

lemma map_insort_key: "map f (insort_key f x xs) = insort (f x) (map f xs)"
  by (induction xs) auto

lemma map_sort_key: "map f (sort_key f xs) = sort (map f xs)"
  by (induction xs) (auto simp: map_insort_key)

lemma techniqueID_entry_of: "techniqueID (entry_of x) = fst x"
  by (cases x) (simp add: entry_of_def)

lemma build_layer_ids:
  "map techniqueID (techniques (build_layer descr nm ti)) = sort (map fst ti)"
  by (simp add: build_layer_def techniqueID_entry_of[abs_def] comp_def map_sort_key)

lemma build_layer_strict_sorted:
  "distinct (map fst ti) \<Longrightarrow>
   sorted_wrt (<) (map techniqueID (techniques (build_layer descr nm ti)))"
  by (simp add: build_layer_ids strict_sorted_iff)

lemma info_of_views:
  "info_of st tid =
     \<lparr>info_score = fst (best st tid), info_max_severity = snd (best st tid),
      info_count = cnt st tid,
      info_comment = comment_of (cnt st tid) (snd (best st tid)) (exs_of st tid)\<rparr>"
  by (simp add: info_of_def best_def cnt_def exs_of_def)

lemma views_init:
  "cnt agg_init tid = 0" "exs_of agg_init tid = []" "best agg_init tid = (0, ''unknown'')"
  "counts agg_init = []"
  by (simp_all add: cnt_def exs_of_def best_def agg_init_def dd_get_def)

lemma entry_of_final:
  assumes "st = foldl (file_step sc yl fs) agg_init files"
  shows "entry_of (tid, info_of st tid) = summary sc yl fs files tid"
  unfolding assms info_of_views cnt_files exs_files best_files views_init
  by (simp add: entry_of_def summary_def best_of_def Let_def foldl_add_example)

lemma keys_final:
  assumes "st = foldl (file_step sc yl fs) agg_init files"
  shows "distinct (map fst (counts st))"
    and "set (map fst (counts st)) = (\<Union>p \<in> set files. set (techs_at yl fs p))"
  unfolding assms using distinct_files[of agg_init sc yl fs files] keys_files[of sc yl fs agg_init files]
  by (simp_all add: views_init)

lemma sort_keys_final:
  assumes "st = foldl (file_step sc yl fs) agg_init files"
  shows "sort (map fst (counts st)) = all_techniques yl fs files"
proof (rule sorted_distinct_set_unique)
  show "sorted (sort (map fst (counts st)))" by simp
  show "distinct (sort (map fst (counts st)))" using keys_final(1)[OF assms] by simp
  show "sorted (all_techniques yl fs files)" by (simp add: all_techniques_def sorted_set_def)
  show "distinct (all_techniques yl fs files)" by (simp add: all_techniques_def sorted_set_def)
  show "set (sort (map fst (counts st))) = set (all_techniques yl fs files)"
    using keys_final(2)[OF assms] by (simp add: all_techniques_def sorted_set_def)
qed

lemma techniques_final:
  assumes st: "st = foldl (file_step sc yl fs) agg_init files"
  shows "techniques (build_layer descr nm (technique_info st))
           = map (summary sc yl fs files) (all_techniques yl fs files)"
proof -
  let ?ti = "technique_info st"
  have ti: "?ti = map (\<lambda>tid. (tid, info_of st tid)) (map fst (counts st))"
    using keys_final(1)[OF st] by (rule technique_info_eq)
  have "\<forall>x \<in> set (sort_key fst ?ti). entry_of x = summary sc yl fs files (fst x)"
    using entry_of_final[OF st] by (auto simp: ti)
  then have "map entry_of (sort_key fst ?ti) = map (summary sc yl fs files) (map fst (sort_key fst ?ti))"
    by simp
  also have "map fst (sort_key fst ?ti) = sort (map fst ?ti)" by (rule map_sort_key)
  also have "map fst ?ti = map fst (counts st)" by (simp add: ti comp_def)
  also have "sort (map fst (counts st)) = all_techniques yl fs files"
    by (rule sort_keys_final[OF st])
  finally show ?thesis by (simp add: build_layer_def)
qed

lemma run_Inr:
  assumes "run sc msg descr yl fs files out_path nm outs = (Inr rep, outs')"
  shows "files \<noteq> []" and "\<forall>p \<in> set files. fs p \<noteq> None"
    and "\<exists>l. outs' = outs(out_path \<mapsto> l)
            \<and> techniques l = map (summary sc yl fs files) (all_techniques yl fs files)"
proof -
  from assms show ne: "files \<noteq> []" by (auto simp: run_def split: if_splits)
  from assms ne obtain st where st: "aggregate sc yl fs files agg_init = Inr st"
    and out: "outs' = outs(out_path \<mapsto> build_layer descr nm (technique_info st))"
    by (auto simp: run_def Let_def split: sum.splits)
  from st have rd: "\<forall>p \<in> set files. fs p \<noteq> None"
    and fin: "st = foldl (file_step sc yl fs) agg_init files"
    by (simp_all add: aggregate_Inr_iff)
  from rd show "\<forall>p \<in> set files. fs p \<noteq> None" .
  from out techniques_final[OF fin] show "\<exists>l. outs' = outs(out_path \<mapsto> l)
            \<and> techniques l = map (summary sc yl fs files) (all_techniques yl fs files)"
    by blast
qed

lemma run_succeeds:
  assumes "files \<noteq> []" and "\<forall>p \<in> set files. fs p \<noteq> None"
  shows "\<exists>rep l. run sc msg descr yl fs files out_path nm outs = (Inr rep, outs(out_path \<mapsto> l))"
proof -
  from assms(2) have "aggregate sc yl fs files agg_init = Inr (foldl (file_step sc yl fs) agg_init files)"
    by (simp add: aggregate_Inr_iff)
  with assms(1) have "run sc msg descr yl fs files out_path nm outs
      = (Inr \<lparr>parsed = parsed_files (foldl (file_step sc yl fs) agg_init files),
               skipped = skipped_no_technique (foldl (file_step sc yl fs) agg_init files),
               wrote = out_path,
               technique_count = length (techniques (build_layer descr nm
                  (technique_info (foldl (file_step sc yl fs) agg_init files))))\<rparr>,
         outs(out_path \<mapsto> build_layer descr nm
                  (technique_info (foldl (file_step sc yl fs) agg_init files))))"
    by (simp add: run_def Let_def)
  then show ?thesis by blast
qed

lemma mem_all_techniques:
  "tid \<in> set (all_techniques yl fs files) \<longleftrightarrow> contributing yl fs files tid \<noteq> []"
  by (auto simp: all_techniques_def sorted_set_def contributing_def filter_empty_conv)

lemma not_upper_lower_char: "\<not> is_upper (lower_char c)"
  by (auto simp: lower_char_def is_upper_def less_eq_char_def)

lemma lower_no_S: "lower s \<noteq> CHR ''S'' # r"
proof
  assume "lower s = CHR ''S'' # r"
  then obtain c where "lower_char c = CHR ''S''" by (cases s) (auto simp: lower_def)
  moreover have "is_upper (CHR ''S'')" by code_simp
  ultimately show False using not_upper_lower_char[of c] by simp
qed

lemma severity_score_50: "severity_score sev = 50"
  using lower_no_S[of sev]
  by (simp add: severity_score_def SEVERITY_TO_SCORE_def)

lemma severity_to_score_range: "severity_to_score sev \<in> {20, 40, 50, 70, 90, 100}"
  by (simp add: severity_to_score_def SEVERITY_TO_SCORE_network_def)


section \<open>The properties\<close>

text \<open>
  Claim C1: the score of a technique entry is the maximum, over the contributing rule
  files, of the score the tier map gives the file's severity label (sev0 100, sev1 90,
  sev2 70, sev3 40, sev4 20, anything else 50). generate_layers.py does not do this: its
  table is keyed \<^verbatim>\<open>"Sev0"\<close> ... \<^verbatim>\<open>"Sev4"\<close> and is read at the lowercased
  label, so no label ever hits a key and \<open>severity_score\<close> is 50 for every label.
  network_layer.py, whose table is keyed in lowercase, gives \<^verbatim>\<open>sev0\<close> 100. On the
  sample repository the rule with \<^verbatim>\<open>Severity: Sev0\<close> gets the score 50 from
  generate_layers.py.
\<close>
theorem generate_layers_scores_every_tier_50:
  "severity_score sev = 50
   \<and> severity_to_score ''sev0'' = 100
   \<and> sev_at sample_loader sample_store ''/r/Cloudflare/ruleA/a.yml'' = ''sev0''
   \<and> map_option (\<lambda>l. map (\<lambda>e. (techniqueID e, score e)) (techniques l))
        (snd (main sample_loader sample_store sample_tree ''/r'' ''out.json'' ''L'' Map.empty)
           ''out.json'')
      = Some [(''T1003'', 50), (''T1003.002'', 50), (''T1059'', 50), (''T1110.001'', 50)]"
proof (intro conjI)
  show "severity_score sev = 50" by (rule severity_score_50)
  show "severity_to_score ''sev0'' = 100" by code_simp
  show "sev_at sample_loader sample_store ''/r/Cloudflare/ruleA/a.yml'' = ''sev0''" by code_simp
  show "map_option (\<lambda>l. map (\<lambda>e. (techniqueID e, score e)) (techniques l))
        (snd (main sample_loader sample_store sample_tree ''/r'' ''out.json'' ''L'' Map.empty)
           ''out.json'')
      = Some [(''T1003'', 50), (''T1003.002'', 50), (''T1059'', 50), (''T1110.001'', 50)]"
    by code_simp
qed

text \<open>
  Claim C7: when the enumeration of the root gives no candidate file (none found, or, in
  restricted mode, none that passes the platform filter), the run ends at once with the
  \<^verbatim>\<open>SystemExit\<close> of the script and the files written are left as they were.
\<close>
theorem no_input_exits:
  "(iter_yaml_files repo_root tree = [] \<longrightarrow>
      main safe_load fs tree repo_root out_path layer_name outs
        = (Inl (SystemExit (''No .yaml/.yml files found under: '' @ repo_root)), outs))
   \<and> (iter_yaml_files_network repo_root tree = [] \<longrightarrow>
      main_network safe_load fs tree repo_root out_path layer_name outs
        = (Inl (SystemExit ''No Network detection YAML files found.''), outs))"
  by (simp add: main_def main_network_def run_def)

text \<open>
  The property at a repository whose only rule file is in an excluded directory, and in
  restricted mode at a repository whose rule files are in the root and under a platform
  that is not allowed.
\<close>
theorem no_input_exits_witness:
  "iter_yaml_files ''/r'' docs_only_tree = []
   \<and> main sample_loader sample_store docs_only_tree ''/r'' ''out.json'' ''L'' Map.empty
        = (Inl (SystemExit ''No .yaml/.yml files found under: /r''), Map.empty)
   \<and> iter_yaml_files_network ''/r'' okta_only_tree = []
   \<and> main_network sample_loader sample_store okta_only_tree ''/r'' ''out.json'' ''L'' Map.empty
        = (Inl (SystemExit ''No Network detection YAML files found.''), Map.empty)"
proof -
  have a: "iter_yaml_files ''/r'' docs_only_tree = []" by code_simp
  have b: "iter_yaml_files_network ''/r'' okta_only_tree = []" by code_simp
  from a no_input_exits[of "''/r''" docs_only_tree sample_loader sample_store "''out.json''" "''L''" Map.empty]
  have c: "main sample_loader sample_store docs_only_tree ''/r'' ''out.json'' ''L'' Map.empty
        = (Inl (SystemExit ''No .yaml/.yml files found under: /r''), Map.empty)" by simp
  from b no_input_exits[of "''/r''" okta_only_tree sample_loader sample_store "''out.json''" "''L''" Map.empty]
  have d: "main_network sample_loader sample_store okta_only_tree ''/r'' ''out.json'' ''L'' Map.empty
        = (Inl (SystemExit ''No Network detection YAML files found.''), Map.empty)" by simp
  from a b c d show ?thesis by (intro conjI)
qed



text \<open>
  Claim C10: in restricted mode a rule file in the root directory itself is never a
  candidate. The relative directory of the root is \<^verbatim>\<open>"."\<close>, its normalised first
  segment is \<^verbatim>\<open>"."\<close>, which is not an allowed platform; so the visit of the root
  yields no file, and the candidates are the same whatever files the root holds.
\<close>
theorem root_files_never_candidates:
  "relpath [] = ''.''
   \<and> platform_of (hd (split_sep (CHR ''/'') (relpath []))) = ''.''
   \<and> ''.'' \<notin> allowed
   \<and> visit_network root ([], fns) = []
   \<and> iter_yaml_files_network root (Dir fns subs) = iter_yaml_files_network root (Dir [] subs)"
proof (intro conjI)
  show "relpath [] = ''.''" by (simp add: relpath_def)
  show "platform_of (hd (split_sep (CHR ''/'') (relpath []))) = ''.''" by code_simp
  show "''.'' \<notin> allowed" by code_simp
  show "visit_network root ([], fns) = []" by (rule visit_network_root)
  show "iter_yaml_files_network root (Dir fns subs) = iter_yaml_files_network root (Dir [] subs)"
    by (rule iter_yaml_files_network_root_files)
qed

text \<open>
  The property at a root with a rule file and an allowed platform directory below it.
\<close>
theorem root_files_never_candidates_witness:
  "iter_yaml_files_network ''/r'' okta_only_tree = []
   \<and> iter_yaml_files_network ''/r''
        (Dir [''top.yml''] [(''Cloudflare'', Dir [''c.yml''] [])]) = [''/r/Cloudflare/c.yml'']
   \<and> visit_network ''/r'' ([], [''top.yml'']) = []"
proof -
  note w = root_files_never_candidates[of "''/r''" "[''top.yml'']" "[(''Cloudflare'', Dir [''c.yml''] [])]"]
  have "iter_yaml_files_network ''/r'' (Dir [] [(''Cloudflare'', Dir [''c.yml''] [])]) = [''/r/Cloudflare/c.yml'']"
    by code_simp
  with w have a: "iter_yaml_files_network ''/r''
        (Dir [''top.yml''] [(''Cloudflare'', Dir [''c.yml''] [])]) = [''/r/Cloudflare/c.yml'']"
    by simp
  have b: "iter_yaml_files_network ''/r'' okta_only_tree = []" by code_simp
  from w have c: "visit_network ''/r'' ([], [''top.yml'']) = []" by blast
  from a b c show ?thesis by (intro conjI)
qed




text \<open>A run that succeeds, in terms of the candidate files.\<close>
lemma main_Inr:
  assumes "main safe_load fs tree repo_root out_path layer_name outs = (Inr rep, outs')"
  shows "iter_yaml_files repo_root tree \<noteq> []"
    and "\<forall>p \<in> set (iter_yaml_files repo_root tree). fs p \<noteq> None"
    and "\<exists>l. outs' = outs(out_path \<mapsto> l)
            \<and> techniques l = map (summary severity_score safe_load fs (iter_yaml_files repo_root tree))
                                (all_techniques safe_load fs (iter_yaml_files repo_root tree))"
  using run_Inr[OF assms[unfolded main_def]] by blast+

lemma main_network_Inr:
  assumes "main_network safe_load fs tree repo_root out_path layer_name outs = (Inr rep, outs')"
  shows "iter_yaml_files_network repo_root tree \<noteq> []"
    and "\<forall>p \<in> set (iter_yaml_files_network repo_root tree). fs p \<noteq> None"
    and "\<exists>l. outs' = outs(out_path \<mapsto> l)
            \<and> techniques l = map (summary severity_to_score safe_load fs (iter_yaml_files_network repo_root tree))
                                (all_techniques safe_load fs (iter_yaml_files_network repo_root tree))"
  using run_Inr[OF assms[unfolded main_network_def]] by blast+

lemma techniqueID_summary: "techniqueID (summary sc yl fs files tid) = tid"
  by (simp add: summary_def Let_def)

lemma ids_of_summaries: "map techniqueID (map (summary sc yl fs files) tids) = tids"
  by (simp add: comp_def techniqueID_summary)

lemma all_techniques_strict_sorted: "sorted_wrt (<) (all_techniques yl fs files)"
  by (simp add: all_techniques_def strict_sorted_sorted_set)

text \<open>
  Claim C6: the techniques of the layer are strictly ascending by \<open>techniqueID\<close>:
  whatever the aggregation state \<open>build_layer\<close> is given, and so in the layer either
  script writes for any tree.
\<close>
theorem techniques_strictly_ascending:
  "sorted_wrt (<) (map techniqueID (techniques (build_layer descr layer_name (technique_info st))))
   \<and> (main safe_load fs tree repo_root out_path layer_name outs = (Inr rep, outs') \<longrightarrow>
        (\<exists>l. outs' out_path = Some l \<and> sorted_wrt (<) (map techniqueID (techniques l))))
   \<and> (main_network safe_load fs tree repo_root out_path layer_name outs = (Inr rep, outs') \<longrightarrow>
        (\<exists>l. outs' out_path = Some l \<and> sorted_wrt (<) (map techniqueID (techniques l))))"
proof (intro conjI impI)
  show "sorted_wrt (<) (map techniqueID (techniques (build_layer descr layer_name (technique_info st))))"
    by (rule build_layer_strict_sorted[OF technique_info_distinct])
next
  assume "main safe_load fs tree repo_root out_path layer_name outs = (Inr rep, outs')"
  from main_Inr(3)[OF this] obtain l where "outs' = outs(out_path \<mapsto> l)"
    and "techniques l = map (summary severity_score safe_load fs (iter_yaml_files repo_root tree))
                          (all_techniques safe_load fs (iter_yaml_files repo_root tree))"
    by blast
  then have "outs' out_path = Some l \<and> sorted_wrt (<) (map techniqueID (techniques l))"
    by (simp add: ids_of_summaries all_techniques_strict_sorted del: map_map)
  then show "\<exists>l. outs' out_path = Some l \<and> sorted_wrt (<) (map techniqueID (techniques l))" ..
next
  assume "main_network safe_load fs tree repo_root out_path layer_name outs = (Inr rep, outs')"
  from main_network_Inr(3)[OF this] obtain l where "outs' = outs(out_path \<mapsto> l)"
    and "techniques l = map (summary severity_to_score safe_load fs (iter_yaml_files_network repo_root tree))
                          (all_techniques safe_load fs (iter_yaml_files_network repo_root tree))"
    by blast
  then have "outs' out_path = Some l \<and> sorted_wrt (<) (map techniqueID (techniques l))"
    by (simp add: ids_of_summaries all_techniques_strict_sorted del: map_map)
  then show "\<exists>l. outs' out_path = Some l \<and> sorted_wrt (<) (map techniqueID (techniques l))" ..
qed

text \<open>The runs on the sample repositories succeed.\<close>
lemma sample_main_runs:
  "main sample_loader sample_store sample_tree ''/r'' ''out.json'' ''L'' Map.empty
     = (Inr \<lparr>parsed = 2, skipped = 1, wrote = ''out.json'', technique_count = 4\<rparr>,
        snd (main sample_loader sample_store sample_tree ''/r'' ''out.json'' ''L'' Map.empty))"
proof -
  have "fst (main sample_loader sample_store sample_tree ''/r'' ''out.json'' ''L'' Map.empty)
          = Inr \<lparr>parsed = 2, skipped = 1, wrote = ''out.json'', technique_count = 4\<rparr>"
    by code_simp
  then show ?thesis by (simp add: prod_eq_iff)
qed

lemma sample_main_network_runs:
  "main_network sample_loader sample_store sample_tree ''/r'' ''out.json'' ''L'' Map.empty
     = (Inr \<lparr>parsed = 1, skipped = 0, wrote = ''out.json'', technique_count = 2\<rparr>,
        snd (main_network sample_loader sample_store sample_tree ''/r'' ''out.json'' ''L'' Map.empty))"
proof -
  have "fst (main_network sample_loader sample_store sample_tree ''/r'' ''out.json'' ''L'' Map.empty)
          = Inr \<lparr>parsed = 1, skipped = 0, wrote = ''out.json'', technique_count = 2\<rparr>"
    by code_simp
  then show ?thesis by (simp add: prod_eq_iff)
qed

lemma many_main_network_runs:
  "main_network many_loader many_store many_tree ''/r'' ''out.json'' ''L'' Map.empty
     = (Inr \<lparr>parsed = 7, skipped = 0, wrote = ''out.json'', technique_count = 1\<rparr>,
        snd (main_network many_loader many_store many_tree ''/r'' ''out.json'' ''L'' Map.empty))"
proof -
  have "fst (main_network many_loader many_store many_tree ''/r'' ''out.json'' ''L'' Map.empty)
          = Inr \<lparr>parsed = 7, skipped = 0, wrote = ''out.json'', technique_count = 1\<rparr>"
    by code_simp
  then show ?thesis by (simp add: prod_eq_iff)
qed

lemma many_main_runs:
  "main many_loader many_store many_tree ''/r'' ''out.json'' ''L'' Map.empty
     = (Inr \<lparr>parsed = 7, skipped = 0, wrote = ''out.json'', technique_count = 1\<rparr>,
        snd (main many_loader many_store many_tree ''/r'' ''out.json'' ''L'' Map.empty))"
proof -
  have "fst (main many_loader many_store many_tree ''/r'' ''out.json'' ''L'' Map.empty)
          = Inr \<lparr>parsed = 7, skipped = 0, wrote = ''out.json'', technique_count = 1\<rparr>"
    by code_simp
  then show ?thesis by (simp add: prod_eq_iff)
qed

text \<open>The property at the layers the two scripts write for the sample repository.\<close>
theorem techniques_strictly_ascending_witness:
  "(\<exists>l. snd (main sample_loader sample_store sample_tree ''/r'' ''out.json'' ''L'' Map.empty) ''out.json''
          = Some l
        \<and> map techniqueID (techniques l) = [''T1003'', ''T1003.002'', ''T1059'', ''T1110.001'']
        \<and> sorted_wrt (<) (map techniqueID (techniques l)))
   \<and> (\<exists>l. snd (main_network sample_loader sample_store sample_tree ''/r'' ''out.json'' ''L'' Map.empty)
             ''out.json'' = Some l
        \<and> sorted_wrt (<) (map techniqueID (techniques l)))"
proof (rule conjI)
  note t = techniques_strictly_ascending[where safe_load = sample_loader and fs = sample_store
      and tree = sample_tree and repo_root = "''/r''" and out_path = "''out.json''"
      and layer_name = "''L''" and outs = Map.empty]
  define w where "w = snd (main sample_loader sample_store sample_tree ''/r'' ''out.json'' ''L'' Map.empty) ''out.json''"
  have ids: "map_option (\<lambda>l. map techniqueID (techniques l)) w
        = Some [''T1003'', ''T1003.002'', ''T1059'', ''T1110.001'']"
    unfolding w_def by code_simp
  from t[THEN conjunct2, THEN conjunct1, rule_format, OF sample_main_runs]
  have "\<exists>l. w = Some l \<and> sorted_wrt (<) (map techniqueID (techniques l))"
    unfolding w_def .
  then obtain l where l: "w = Some l" and s: "sorted_wrt (<) (map techniqueID (techniques l))"
    by (elim exE conjE)
  from ids l have a: "map techniqueID (techniques l) = [''T1003'', ''T1003.002'', ''T1059'', ''T1110.001'']"
    by simp
  from l a s have "w = Some l
        \<and> map techniqueID (techniques l) = [''T1003'', ''T1003.002'', ''T1059'', ''T1110.001'']
        \<and> sorted_wrt (<) (map techniqueID (techniques l))"
    by (intro conjI)
  then show "\<exists>l. snd (main sample_loader sample_store sample_tree ''/r'' ''out.json'' ''L'' Map.empty) ''out.json''
          = Some l
        \<and> map techniqueID (techniques l) = [''T1003'', ''T1003.002'', ''T1059'', ''T1110.001'']
        \<and> sorted_wrt (<) (map techniqueID (techniques l))"
    unfolding w_def by (rule exI[where x = l])
  from t[THEN conjunct2, THEN conjunct2, rule_format, OF sample_main_network_runs]
  show "\<exists>l. snd (main_network sample_loader sample_store sample_tree ''/r'' ''out.json'' ''L'' Map.empty)
             ''out.json'' = Some l \<and> sorted_wrt (<) (map techniqueID (techniques l))" .
qed

text \<open>The best score of a technique in terms of its contributing files.\<close>
lemma severity_score_range: "severity_score sev \<in> {20, 40, 50, 70, 90, 100}"
  by (simp add: severity_score_50)

lemma find_map_option: "find P (map g zs) = map_option g (find (P \<circ> g) zs)"
  by (induction zs) auto

lemma best_of_score:
  assumes pos: "\<forall>s. 0 < sc s" and ne: "contributing yl fs files tid \<noteq> []"
  shows "fst (best_of sc yl fs files tid)
           = Max ((\<lambda>p. sc (sev_at yl fs p)) ` set (contributing yl fs files tid))"
    and "\<exists>p. find (\<lambda>p. sc (sev_at yl fs p) = fst (best_of sc yl fs files tid))
                (contributing yl fs files tid) = Some p
             \<and> snd (best_of sc yl fs files tid) = sev_at yl fs p"
proof -
  let ?cs = "contributing yl fs files tid"
  let ?f = "\<lambda>p. (sc (sev_at yl fs p), sev_at yl fs p)"
  let ?xs = "map ?f ?cs"
  have xs: "?xs \<noteq> []" "\<forall>x \<in> set ?xs. 0 < fst x" using pos ne by auto
  have img: "fst ` set ?xs = (\<lambda>p. sc (sev_at yl fs p)) ` set ?cs" by force
  from foldl_better[OF xs, of "''unknown''"]
  have m: "fst (best_of sc yl fs files tid) = Max (fst ` set ?xs)"
    and f: "find (\<lambda>x. fst x = Max (fst ` set ?xs)) ?xs = Some (best_of sc yl fs files tid)"
    by (simp_all add: best_of_def)
  from m img show "fst (best_of sc yl fs files tid)
           = Max ((\<lambda>p. sc (sev_at yl fs p)) ` set ?cs)" by simp
  from f m have "map_option ?f (find (\<lambda>p. sc (sev_at yl fs p) = fst (best_of sc yl fs files tid)) ?cs)
      = Some (best_of sc yl fs files tid)"
    by (simp add: find_map_option comp_def)
  then obtain p where "find (\<lambda>p. sc (sev_at yl fs p) = fst (best_of sc yl fs files tid)) ?cs = Some p"
    and "?f p = best_of sc yl fs files tid" by auto
  then show "\<exists>p. find (\<lambda>p. sc (sev_at yl fs p) = fst (best_of sc yl fs files tid)) ?cs = Some p
             \<and> snd (best_of sc yl fs files tid) = sev_at yl fs p"
    by (metis snd_conv)
qed

lemma summary_score_range:
  assumes pos: "\<forall>s. 0 < sc s" and rng: "\<forall>s. sc s \<in> R"
      and tid: "tid \<in> set (all_techniques yl fs files)"
  shows "score (summary sc yl fs files tid) \<in> R"
proof -
  let ?cs = "contributing yl fs files tid"
  from tid have ne: "?cs \<noteq> []" by (simp add: mem_all_techniques)
  have "score (summary sc yl fs files tid) = fst (best_of sc yl fs files tid)"
    by (simp add: summary_def Let_def)
  also have "\<dots> = Max ((\<lambda>p. sc (sev_at yl fs p)) ` set ?cs)"
    by (rule best_of_score(1)[OF pos ne])
  also have "\<dots> \<in> (\<lambda>p. sc (sev_at yl fs p)) ` set ?cs"
    using ne by (intro Max_in) auto
  finally show ?thesis using rng by auto
qed

lemma severity_to_score_pos: "0 < severity_to_score sev"
  using severity_to_score_range[of sev] by auto

lemma severity_score_pos: "0 < severity_score sev"
  by (simp add: severity_score_50)

text \<open>
  Claim C9: every technique entry of the layer has a score that is strictly positive
  and one of 20, 40, 50, 70, 90, 100. The initial best score 0 never reaches the layer:
  an entry has a contributing file, and the score of every severity label is at least 20.
\<close>
theorem scores_are_tier_scores:
  "(main safe_load fs tree repo_root out_path layer_name outs = (Inr rep, outs') \<longrightarrow>
      (\<exists>l. outs' out_path = Some l
          \<and> (\<forall>e \<in> set (techniques l). 0 < score e \<and> score e \<in> {20, 40, 50, 70, 90, 100})))
   \<and> (main_network safe_load fs tree repo_root out_path layer_name outs = (Inr rep, outs') \<longrightarrow>
      (\<exists>l. outs' out_path = Some l
          \<and> (\<forall>e \<in> set (techniques l). 0 < score e \<and> score e \<in> {20, 40, 50, 70, 90, 100})))"
proof (intro conjI impI)
  assume "main safe_load fs tree repo_root out_path layer_name outs = (Inr rep, outs')"
  from main_Inr(3)[OF this] obtain l where o: "outs' = outs(out_path \<mapsto> l)"
    and t: "techniques l = map (summary severity_score safe_load fs (iter_yaml_files repo_root tree))
                          (all_techniques safe_load fs (iter_yaml_files repo_root tree))"
    by blast
  have "\<forall>e \<in> set (techniques l). score e \<in> {20, 40, 50, 70, 90, 100}"
    unfolding t using summary_score_range[of severity_score "{20, 40, 50, 70, 90, 100}"]
      severity_score_pos severity_score_range by auto
  then have "\<forall>e \<in> set (techniques l). 0 < score e \<and> score e \<in> {20, 40, 50, 70, 90, 100}"
    by auto
  with o have "outs' out_path = Some l
      \<and> (\<forall>e \<in> set (techniques l). 0 < score e \<and> score e \<in> {20, 40, 50, 70, 90, 100})" by simp
  then show "\<exists>l. outs' out_path = Some l
          \<and> (\<forall>e \<in> set (techniques l). 0 < score e \<and> score e \<in> {20, 40, 50, 70, 90, 100})" ..
next
  assume "main_network safe_load fs tree repo_root out_path layer_name outs = (Inr rep, outs')"
  from main_network_Inr(3)[OF this] obtain l where o: "outs' = outs(out_path \<mapsto> l)"
    and t: "techniques l = map (summary severity_to_score safe_load fs (iter_yaml_files_network repo_root tree))
                          (all_techniques safe_load fs (iter_yaml_files_network repo_root tree))"
    by blast
  have "\<forall>e \<in> set (techniques l). score e \<in> {20, 40, 50, 70, 90, 100}"
    unfolding t using summary_score_range[of severity_to_score "{20, 40, 50, 70, 90, 100}"]
      severity_to_score_pos severity_to_score_range by auto
  then have "\<forall>e \<in> set (techniques l). 0 < score e \<and> score e \<in> {20, 40, 50, 70, 90, 100}"
    by auto
  with o have "outs' out_path = Some l
      \<and> (\<forall>e \<in> set (techniques l). 0 < score e \<and> score e \<in> {20, 40, 50, 70, 90, 100})" by simp
  then show "\<exists>l. outs' out_path = Some l
          \<and> (\<forall>e \<in> set (techniques l). 0 < score e \<and> score e \<in> {20, 40, 50, 70, 90, 100})" ..
qed

text \<open>The property at the layers the two scripts write for the sample repository.\<close>
theorem scores_are_tier_scores_witness:
  "(\<exists>l. snd (main sample_loader sample_store sample_tree ''/r'' ''out.json'' ''L'' Map.empty)
           ''out.json'' = Some l
        \<and> map score (techniques l) = [50, 50, 50, 50]
        \<and> (\<forall>e \<in> set (techniques l). 0 < score e \<and> score e \<in> {20, 40, 50, 70, 90, 100}))
   \<and> (\<exists>l. snd (main_network sample_loader sample_store sample_tree ''/r'' ''out.json'' ''L'' Map.empty)
           ''out.json'' = Some l
        \<and> map score (techniques l) = [100, 100]
        \<and> (\<forall>e \<in> set (techniques l). 0 < score e \<and> score e \<in> {20, 40, 50, 70, 90, 100}))"
proof (rule conjI)
  note t = scores_are_tier_scores[where safe_load = sample_loader and fs = sample_store
      and tree = sample_tree and repo_root = "''/r''" and out_path = "''out.json''"
      and layer_name = "''L''" and outs = Map.empty]
  define w where "w = snd (main sample_loader sample_store sample_tree ''/r'' ''out.json'' ''L'' Map.empty) ''out.json''"
  define v where "v = snd (main_network sample_loader sample_store sample_tree ''/r'' ''out.json'' ''L'' Map.empty) ''out.json''"
  have sw: "map_option (\<lambda>l. map score (techniques l)) w = Some [50, 50, 50, 50]"
    unfolding w_def by code_simp
  have sv: "map_option (\<lambda>l. map score (techniques l)) v = Some [100, 100]"
    unfolding v_def by code_simp
  from t[THEN conjunct1, rule_format, OF sample_main_runs]
  have "\<exists>l. w = Some l \<and> (\<forall>e \<in> set (techniques l). 0 < score e \<and> score e \<in> {20, 40, 50, 70, 90, 100})"
    unfolding w_def .
  then obtain l where l: "w = Some l"
    and s: "\<forall>e \<in> set (techniques l). 0 < score e \<and> score e \<in> {20, 40, 50, 70, 90, 100}"
    by (elim exE conjE)
  from sw l have a: "map score (techniques l) = [50, 50, 50, 50]" by simp
  from l a s have "w = Some l \<and> map score (techniques l) = [50, 50, 50, 50]
      \<and> (\<forall>e \<in> set (techniques l). 0 < score e \<and> score e \<in> {20, 40, 50, 70, 90, 100})"
    by (intro conjI)
  then show "\<exists>l. snd (main sample_loader sample_store sample_tree ''/r'' ''out.json'' ''L'' Map.empty)
           ''out.json'' = Some l
        \<and> map score (techniques l) = [50, 50, 50, 50]
        \<and> (\<forall>e \<in> set (techniques l). 0 < score e \<and> score e \<in> {20, 40, 50, 70, 90, 100})"
    unfolding w_def by (rule exI[where x = l])
  from t[THEN conjunct2, rule_format, OF sample_main_network_runs]
  have "\<exists>l. v = Some l \<and> (\<forall>e \<in> set (techniques l). 0 < score e \<and> score e \<in> {20, 40, 50, 70, 90, 100})"
    unfolding v_def .
  then obtain k where k: "v = Some k"
    and s': "\<forall>e \<in> set (techniques k). 0 < score e \<and> score e \<in> {20, 40, 50, 70, 90, 100}"
    by (elim exE conjE)
  from sv k have b: "map score (techniques k) = [100, 100]" by simp
  from k b s' have "v = Some k \<and> map score (techniques k) = [100, 100]
      \<and> (\<forall>e \<in> set (techniques k). 0 < score e \<and> score e \<in> {20, 40, 50, 70, 90, 100})"
    by (intro conjI)
  then show "\<exists>l. snd (main_network sample_loader sample_store sample_tree ''/r'' ''out.json'' ''L'' Map.empty)
           ''out.json'' = Some l
        \<and> map score (techniques l) = [100, 100]
        \<and> (\<forall>e \<in> set (techniques l). 0 < score e \<and> score e \<in> {20, 40, 50, 70, 90, 100})"
    unfolding v_def by (rule exI[where x = k])
qed

text \<open>The state after a successful aggregation, technique by technique.\<close>
lemma aggregate_best:
  assumes "aggregate sc yl fs files agg_init = Inr st"
  shows "best st tid = best_of sc yl fs files tid"
    and "exs_of st tid = take 5 (map location_of (contributing yl fs files tid))"
    and "cnt st tid = int (length (contributing yl fs files tid))"
proof -
  from assms have st: "st = foldl (file_step sc yl fs) agg_init files"
    by (simp add: aggregate_Inr_iff)
  show "best st tid = best_of sc yl fs files tid"
    unfolding st best_files views_init by (simp add: best_of_def)
  show "exs_of st tid = take 5 (map location_of (contributing yl fs files tid))"
    unfolding st exs_files views_init by (simp add: foldl_add_example)
  show "cnt st tid = int (length (contributing yl fs files tid))"
    unfolding st cnt_files views_init by simp
qed

text \<open>
  Claim C4: during aggregation the best score and the best severity label of a
  technique are updated if and only if the score of the current file is strictly greater
  than the best score recorded for that technique, and the records of other techniques
  are left alone. So when the aggregation of either script ends, the best score of a
  technique is the maximum of the scores of its contributing files and the label is the
  one of the first contributing file, in processing order, that has this score: on a
  tie the label seen first is kept.
\<close>
theorem best_updated_iff_strictly_greater:
  "(sc > dd_get 0 (max_score st) tid \<longrightarrow>
      max_score (update_tid sc sev loc st tid) = AList.update tid sc (max_score st)
      \<and> max_sev (update_tid sc sev loc st tid) = AList.update tid sev (max_sev st)
      \<and> dd_get 0 (max_score (update_tid sc sev loc st tid)) tid = sc
      \<and> dd_get ''unknown'' (max_sev (update_tid sc sev loc st tid)) tid = sev)
   \<and> (\<not> sc > dd_get 0 (max_score st) tid \<longrightarrow>
      max_score (update_tid sc sev loc st tid) = max_score st
      \<and> max_sev (update_tid sc sev loc st tid) = max_sev st)
   \<and> (tid' \<noteq> tid \<longrightarrow>
      dd_get 0 (max_score (update_tid sc sev loc st tid)) tid' = dd_get 0 (max_score st) tid'
      \<and> dd_get ''unknown'' (max_sev (update_tid sc sev loc st tid)) tid'
          = dd_get ''unknown'' (max_sev st) tid')
   \<and> (aggregate score_of safe_load fs files agg_init = Inr st'
        \<and> (score_of = severity_score \<or> score_of = severity_to_score)
        \<and> contributing safe_load fs files tid \<noteq> [] \<longrightarrow>
      dd_get 0 (max_score st') tid
        = Max ((\<lambda>p. score_of (sev_at safe_load fs p)) ` set (contributing safe_load fs files tid))
      \<and> (\<exists>p. find (\<lambda>p. score_of (sev_at safe_load fs p) = dd_get 0 (max_score st') tid)
                 (contributing safe_load fs files tid) = Some p
             \<and> dd_get ''unknown'' (max_sev st') tid = sev_at safe_load fs p))"
proof (intro conjI impI)
  assume "sc > dd_get 0 (max_score st) tid"
  then show "max_score (update_tid sc sev loc st tid) = AList.update tid sc (max_score st)"
    and "max_sev (update_tid sc sev loc st tid) = AList.update tid sev (max_sev st)"
    and "dd_get 0 (max_score (update_tid sc sev loc st tid)) tid = sc"
    and "dd_get ''unknown'' (max_sev (update_tid sc sev loc st tid)) tid = sev"
    by (simp_all add: update_tid_def Let_def dd_get_update)
next
  assume "\<not> sc > dd_get 0 (max_score st) tid"
  then show "max_score (update_tid sc sev loc st tid) = max_score st"
    and "max_sev (update_tid sc sev loc st tid) = max_sev st"
    by (simp_all add: update_tid_def Let_def)
next
  assume "tid' \<noteq> tid"
  then show "dd_get 0 (max_score (update_tid sc sev loc st tid)) tid' = dd_get 0 (max_score st) tid'"
    and "dd_get ''unknown'' (max_sev (update_tid sc sev loc st tid)) tid'
          = dd_get ''unknown'' (max_sev st) tid'"
    by (simp_all add: update_tid_def Let_def dd_get_update)
next
  assume a: "aggregate score_of safe_load fs files agg_init = Inr st'
        \<and> (score_of = severity_score \<or> score_of = severity_to_score)
        \<and> contributing safe_load fs files tid \<noteq> []"
  then have pos: "\<forall>s. 0 < score_of s"
    using severity_score_pos severity_to_score_pos by auto
  from a have ne: "contributing safe_load fs files tid \<noteq> []" by simp
  from a have b: "best st' tid = best_of score_of safe_load fs files tid"
    by (simp add: aggregate_best(1))
  then have f: "dd_get 0 (max_score st') tid = fst (best_of score_of safe_load fs files tid)"
    and s: "dd_get ''unknown'' (max_sev st') tid = snd (best_of score_of safe_load fs files tid)"
    by (simp_all add: best_def prod_eq_iff)
  show "dd_get 0 (max_score st') tid
        = Max ((\<lambda>p. score_of (sev_at safe_load fs p)) ` set (contributing safe_load fs files tid))"
    unfolding f by (rule best_of_score(1)[OF pos ne])
  show "\<exists>p. find (\<lambda>p. score_of (sev_at safe_load fs p) = dd_get 0 (max_score st') tid)
                 (contributing safe_load fs files tid) = Some p
             \<and> dd_get ''unknown'' (max_sev st') tid = sev_at safe_load fs p"
    unfolding f s by (rule best_of_score(2)[OF pos ne])
qed

text \<open>The repository with seven rule files, evaluated.\<close>
lemma many_files_enumerated: "iter_yaml_files_network ''/r'' many_tree = many_files"
  by code_simp

lemma many_aggregate:
  "aggregate severity_to_score many_loader many_store many_files agg_init = Inr many_final"
  by code_simp

lemma many_contributing: "contributing many_loader many_store many_files ''T1059'' = many_files"
  by code_simp

text \<open>
  The property at the repository with seven rule files: the first two files have the
  labels \<^verbatim>\<open>high\<close> and \<^verbatim>\<open>critical\<close>, both of score 50, and the label kept is
  \<^verbatim>\<open>high\<close>.
\<close>
theorem best_updated_iff_strictly_greater_witness:
  "aggregate severity_to_score many_loader many_store many_files agg_init = Inr many_final
   \<and> contributing many_loader many_store many_files ''T1059'' = many_files
   \<and> sev_at many_loader many_store ''/r/Data_dog/rule/a.yml'' = ''high''
   \<and> sev_at many_loader many_store ''/r/Data_dog/rule/b.yml'' = ''critical''
   \<and> severity_to_score ''high'' = 50 \<and> severity_to_score ''critical'' = 50
   \<and> dd_get 0 (max_score many_final) ''T1059'' = 50
   \<and> dd_get ''unknown'' (max_sev many_final) ''T1059'' = ''high''
   \<and> (\<exists>p. find (\<lambda>p. severity_to_score (sev_at many_loader many_store p)
                       = dd_get 0 (max_score many_final) ''T1059'') many_files = Some p
          \<and> dd_get ''unknown'' (max_sev many_final) ''T1059'' = sev_at many_loader many_store p)
   \<and> max_sev (update_tid 50 ''critical'' ''rule/b.yml'' many_final ''T1059'') = max_sev many_final"
proof -
  have a: "sev_at many_loader many_store ''/r/Data_dog/rule/a.yml'' = ''high''" by code_simp
  have b: "sev_at many_loader many_store ''/r/Data_dog/rule/b.yml'' = ''critical''" by code_simp
  have c: "severity_to_score ''high'' = 50" by code_simp
  have d: "severity_to_score ''critical'' = 50" by code_simp
  have e: "dd_get 0 (max_score many_final) ''T1059'' = 50" by code_simp
  have f: "dd_get ''unknown'' (max_sev many_final) ''T1059'' = ''high''" by code_simp
  have ne: "contributing many_loader many_store many_files ''T1059'' \<noteq> []"
    unfolding many_contributing by (simp add: many_files_def)
  note t = best_updated_iff_strictly_greater[where score_of = severity_to_score
      and safe_load = many_loader and fs = many_store and files = many_files and st' = many_final
      and tid = "''T1059''" and st = many_final and sc = 50 and sev = "''critical''"
      and loc = "''rule/b.yml''"]
  have hyp: "aggregate severity_to_score many_loader many_store many_files agg_init = Inr many_final
        \<and> (severity_to_score = severity_score \<or> severity_to_score = severity_to_score)
        \<and> contributing many_loader many_store many_files ''T1059'' \<noteq> []"
    using many_aggregate ne by (intro conjI disjI2 refl)
  from t[THEN conjunct2, THEN conjunct2, THEN conjunct2, rule_format, OF hyp, THEN conjunct2]
  have g: "\<exists>p. find (\<lambda>p. severity_to_score (sev_at many_loader many_store p)
                       = dd_get 0 (max_score many_final) ''T1059'') many_files = Some p
          \<and> dd_get ''unknown'' (max_sev many_final) ''T1059'' = sev_at many_loader many_store p"
    unfolding many_contributing .
  have "\<not> 50 > dd_get 0 (max_score many_final) ''T1059''" unfolding e by simp
  from t[THEN conjunct2, THEN conjunct1, rule_format, OF this, THEN conjunct2]
  have h: "max_sev (update_tid 50 ''critical'' ''rule/b.yml'' many_final ''T1059'') = max_sev many_final" .
  from many_aggregate many_contributing a b c d e f g h show ?thesis by (intro conjI)
qed

text \<open>The comment of an entry in terms of the contributing files.\<close>
lemma comment_summary:
  "comment (summary sc yl fs files tid)
     = comment_of (int (length (contributing yl fs files tid))) (snd (best_of sc yl fs files tid))
         (take 5 (map location_of (contributing yl fs files tid)))"
  by (simp add: summary_def Let_def)

lemma entries_of_summaries:
  assumes "techniques l = map (summary sc yl fs files) (all_techniques yl fs files)"
      and "e \<in> set (techniques l)"
  shows "e = summary sc yl fs files (techniqueID e)"
    and "contributing yl fs files (techniqueID e) \<noteq> []"
proof -
  from assms obtain tid where tid: "tid \<in> set (all_techniques yl fs files)"
    and e: "e = summary sc yl fs files tid" by auto
  from e have "techniqueID e = tid" by (simp add: techniqueID_summary)
  with e show "e = summary sc yl fs files (techniqueID e)" by simp
  from tid \<open>techniqueID e = tid\<close> show "contributing yl fs files (techniqueID e) \<noteq> []"
    by (simp add: mem_all_techniques)
qed

lemma run_examples:
  assumes "run sc msg descr yl fs files out_path nm outs = (Inr rep, outs')"
  shows "\<exists>l. outs' out_path = Some l
          \<and> (\<forall>e \<in> set (techniques l).
                contributing yl fs files (techniqueID e) \<noteq> []
                \<and> comment e
                   = comment_of (int (length (contributing yl fs files (techniqueID e))))
                       (snd (best_of sc yl fs files (techniqueID e)))
                       (take 5 (map location_of (contributing yl fs files (techniqueID e)))))"
proof -
  from run_Inr(3)[OF assms] obtain l where o: "outs' = outs(out_path \<mapsto> l)"
    and t: "techniques l = map (summary sc yl fs files) (all_techniques yl fs files)"
    by blast
  have "\<forall>e \<in> set (techniques l).
                contributing yl fs files (techniqueID e) \<noteq> []
                \<and> comment e
                   = comment_of (int (length (contributing yl fs files (techniqueID e))))
                       (snd (best_of sc yl fs files (techniqueID e)))
                       (take 5 (map location_of (contributing yl fs files (techniqueID e))))"
  proof
    fix e assume e: "e \<in> set (techniques l)"
    from entries_of_summaries[OF t e] comment_summary[of sc yl fs files "techniqueID e"]
    show "contributing yl fs files (techniqueID e) \<noteq> []
                \<and> comment e
                   = comment_of (int (length (contributing yl fs files (techniqueID e))))
                       (snd (best_of sc yl fs files (techniqueID e)))
                       (take 5 (map location_of (contributing yl fs files (techniqueID e))))"
      by simp
  qed
  with o show ?thesis by simp
qed

text \<open>
  Claim C5: the examples of a technique grow by one location per contributing file
  until there are five, and are never changed after that. The candidate files are
  processed in sorted order, and in the layer of either script the examples in the
  comment of an entry are the locations of the first five contributing files in that
  order (all of them when there are at most five).
\<close>
theorem examples_first_five:
  "dd_get [] (examples (update_tid sc sev loc st tid)) tid
     = (if length (dd_get [] (examples st) tid) < 5 then dd_get [] (examples st) tid @ [loc]
        else dd_get [] (examples st) tid)
   \<and> (\<not> length (dd_get [] (examples st) tid) < 5 \<longrightarrow>
        examples (update_tid sc sev loc st tid) = examples st)
   \<and> sorted (iter_yaml_files repo_root tree)
   \<and> sorted (iter_yaml_files_network repo_root tree)
   \<and> (main safe_load fs tree repo_root out_path layer_name outs = (Inr rep, outs') \<longrightarrow>
        (\<exists>l. outs' out_path = Some l
          \<and> (\<forall>e \<in> set (techniques l).
                contributing safe_load fs (iter_yaml_files repo_root tree) (techniqueID e) \<noteq> []
                \<and> comment e
                   = comment_of
                       (int (length (contributing safe_load fs (iter_yaml_files repo_root tree)
                                       (techniqueID e))))
                       (snd (best_of severity_score safe_load fs (iter_yaml_files repo_root tree)
                               (techniqueID e)))
                       (take 5 (map location_of
                                  (contributing safe_load fs (iter_yaml_files repo_root tree)
                                     (techniqueID e)))))))
   \<and> (main_network safe_load fs tree repo_root out_path layer_name outs = (Inr rep, outs') \<longrightarrow>
        (\<exists>l. outs' out_path = Some l
          \<and> (\<forall>e \<in> set (techniques l).
                contributing safe_load fs (iter_yaml_files_network repo_root tree) (techniqueID e) \<noteq> []
                \<and> comment e
                   = comment_of
                       (int (length (contributing safe_load fs (iter_yaml_files_network repo_root tree)
                                       (techniqueID e))))
                       (snd (best_of severity_to_score safe_load fs
                               (iter_yaml_files_network repo_root tree) (techniqueID e)))
                       (take 5 (map location_of
                                  (contributing safe_load fs (iter_yaml_files_network repo_root tree)
                                     (techniqueID e)))))))"
proof (intro conjI impI)
  show "dd_get [] (examples (update_tid sc sev loc st tid)) tid
     = (if length (dd_get [] (examples st) tid) < 5 then dd_get [] (examples st) tid @ [loc]
        else dd_get [] (examples st) tid)"
    using exs_update_tid[of sc sev loc st tid tid] by (simp add: exs_of_def add_example_def)
  show "sorted (iter_yaml_files repo_root tree)" by (simp add: iter_yaml_files_def)
  show "sorted (iter_yaml_files_network repo_root tree)" by (simp add: iter_yaml_files_network_def)
next
  assume "\<not> length (dd_get [] (examples st) tid) < 5"
  then show "examples (update_tid sc sev loc st tid) = examples st"
    by (simp add: update_tid_def Let_def dd_get_update)
next
  assume "main safe_load fs tree repo_root out_path layer_name outs = (Inr rep, outs')"
  from run_examples[OF this[unfolded main_def]]
  show "\<exists>l. outs' out_path = Some l
          \<and> (\<forall>e \<in> set (techniques l).
                contributing safe_load fs (iter_yaml_files repo_root tree) (techniqueID e) \<noteq> []
                \<and> comment e
                   = comment_of
                       (int (length (contributing safe_load fs (iter_yaml_files repo_root tree)
                                       (techniqueID e))))
                       (snd (best_of severity_score safe_load fs (iter_yaml_files repo_root tree)
                               (techniqueID e)))
                       (take 5 (map location_of
                                  (contributing safe_load fs (iter_yaml_files repo_root tree)
                                     (techniqueID e)))))" .
next
  assume "main_network safe_load fs tree repo_root out_path layer_name outs = (Inr rep, outs')"
  from run_examples[OF this[unfolded main_network_def]]
  show "\<exists>l. outs' out_path = Some l
          \<and> (\<forall>e \<in> set (techniques l).
                contributing safe_load fs (iter_yaml_files_network repo_root tree) (techniqueID e) \<noteq> []
                \<and> comment e
                   = comment_of
                       (int (length (contributing safe_load fs (iter_yaml_files_network repo_root tree)
                                       (techniqueID e))))
                       (snd (best_of severity_to_score safe_load fs
                               (iter_yaml_files_network repo_root tree) (techniqueID e)))
                       (take 5 (map location_of
                                  (contributing safe_load fs (iter_yaml_files_network repo_root tree)
                                     (techniqueID e)))))" .
qed

text \<open>
  The property at the repository with seven rule files, all contributing to
  \<^verbatim>\<open>T1059\<close>: the comment lists the first five in sorted order.
\<close>
theorem examples_first_five_witness:
  "length (contributing many_loader many_store (iter_yaml_files_network ''/r'' many_tree) ''T1059'') = 7
   \<and> take 5 (map location_of
               (contributing many_loader many_store (iter_yaml_files_network ''/r'' many_tree) ''T1059''))
       = [''rule/a.yml'', ''rule/b.yml'', ''rule/c.yml'', ''rule/d.yml'', ''rule/e.yml'']
   \<and> (\<exists>l. snd (main_network many_loader many_store many_tree ''/r'' ''out.json'' ''L'' Map.empty)
             ''out.json'' = Some l
          \<and> map comment (techniques l)
              = [''detections=7; max_sev=high; examples=rule/a.yml, rule/b.yml, rule/c.yml, rule/d.yml, rule/e.yml'']
          \<and> (\<forall>e \<in> set (techniques l).
                contributing many_loader many_store (iter_yaml_files_network ''/r'' many_tree)
                  (techniqueID e) \<noteq> []
                \<and> comment e
                   = comment_of
                       (int (length (contributing many_loader many_store
                                       (iter_yaml_files_network ''/r'' many_tree) (techniqueID e))))
                       (snd (best_of severity_to_score many_loader many_store
                               (iter_yaml_files_network ''/r'' many_tree) (techniqueID e)))
                       (take 5 (map location_of
                                  (contributing many_loader many_store
                                     (iter_yaml_files_network ''/r'' many_tree) (techniqueID e))))))
   \<and> examples (update_tid 20 ''sev4'' ''rule/f.yml'' many_final ''T1059'') = examples many_final"
proof (intro conjI)
  note t = examples_first_five[where safe_load = many_loader and fs = many_store
      and tree = many_tree and repo_root = "''/r''" and out_path = "''out.json''"
      and layer_name = "''L''" and outs = Map.empty and st = many_final and tid = "''T1059''"
      and sc = 20 and sev = "''sev4''" and loc = "''rule/f.yml''"]
  show "length (contributing many_loader many_store (iter_yaml_files_network ''/r'' many_tree) ''T1059'') = 7"
    unfolding many_files_enumerated many_contributing by (simp add: many_files_def)
  show "take 5 (map location_of
               (contributing many_loader many_store (iter_yaml_files_network ''/r'' many_tree) ''T1059''))
       = [''rule/a.yml'', ''rule/b.yml'', ''rule/c.yml'', ''rule/d.yml'', ''rule/e.yml'']"
    by code_simp
  define w where "w = snd (main_network many_loader many_store many_tree ''/r'' ''out.json'' ''L'' Map.empty) ''out.json''"
  have c: "map_option (\<lambda>l. map comment (techniques l)) w
      = Some [''detections=7; max_sev=high; examples=rule/a.yml, rule/b.yml, rule/c.yml, rule/d.yml, rule/e.yml'']"
    unfolding w_def by code_simp
  from t[THEN conjunct2, THEN conjunct2, THEN conjunct2, THEN conjunct2, THEN conjunct2,
         rule_format, OF many_main_network_runs]
  obtain l where l: "w = Some l"
    and e: "\<forall>e \<in> set (techniques l).
                contributing many_loader many_store (iter_yaml_files_network ''/r'' many_tree)
                  (techniqueID e) \<noteq> []
                \<and> comment e
                   = comment_of
                       (int (length (contributing many_loader many_store
                                       (iter_yaml_files_network ''/r'' many_tree) (techniqueID e))))
                       (snd (best_of severity_to_score many_loader many_store
                               (iter_yaml_files_network ''/r'' many_tree) (techniqueID e)))
                       (take 5 (map location_of
                                  (contributing many_loader many_store
                                     (iter_yaml_files_network ''/r'' many_tree) (techniqueID e))))"
    unfolding w_def by (elim exE conjE)
  from c l have m: "map comment (techniques l)
      = [''detections=7; max_sev=high; examples=rule/a.yml, rule/b.yml, rule/c.yml, rule/d.yml, rule/e.yml'']"
    by simp
  from l m e show "\<exists>l. snd (main_network many_loader many_store many_tree ''/r'' ''out.json'' ''L'' Map.empty)
             ''out.json'' = Some l
          \<and> map comment (techniques l)
              = [''detections=7; max_sev=high; examples=rule/a.yml, rule/b.yml, rule/c.yml, rule/d.yml, rule/e.yml'']
          \<and> (\<forall>e \<in> set (techniques l).
                contributing many_loader many_store (iter_yaml_files_network ''/r'' many_tree)
                  (techniqueID e) \<noteq> []
                \<and> comment e
                   = comment_of
                       (int (length (contributing many_loader many_store
                                       (iter_yaml_files_network ''/r'' many_tree) (techniqueID e))))
                       (snd (best_of severity_to_score many_loader many_store
                               (iter_yaml_files_network ''/r'' many_tree) (techniqueID e)))
                       (take 5 (map location_of
                                  (contributing many_loader many_store
                                     (iter_yaml_files_network ''/r'' many_tree) (techniqueID e)))))"
    unfolding w_def by (intro exI[where x = l] conjI)
  have "\<not> length (dd_get [] (examples many_final) ''T1059'') < 5" by code_simp
  from t[THEN conjunct2, THEN conjunct1, rule_format, OF this]
  show "examples (update_tid 20 ''sev4'' ''rule/f.yml'' many_final ''T1059'') = examples many_final" .
qed



end
